theory Spec2Isabelle
  imports Complex_Main
begin

section \<open>Data model\<close>

text \<open>
  The two modules \<^verbatim>\<open>mir_eval/boundary.py\<close> and \<^verbatim>\<open>mir_eval/structure.py\<close> work on
  numpy arrays of Python floats. Floats are modelled as reals together with one extra
  value for \<^verbatim>\<open>nan\<close>; rounding is not modelled. An exception is a value of type
  \<open>error\<close>, and a function that may raise returns \<open>error + 'a\<close>.
\<close>

datatype error = ValueError string | IndexError

datatype pyfloat = Num real | NaN

text \<open>
  A numpy array of floats: its shape and its entries in row-major order. Interval
  arrays are expected to have shape \<open>[n, 2]\<close>; the validators check it.
\<close>

record ndarray =
  shape :: "nat list"
  flat :: "real list"

definition ndim :: "ndarray \<Rightarrow> nat" where
  "ndim a = length (shape a)"

text \<open>The rows \<open>(start, end)\<close> of an n-by-2 array, as \<^verbatim>\<open>for start, end in intervals\<close> visits them.\<close>

definition rows :: "ndarray \<Rightarrow> (real \<times> real) list" where
  "rows a = map (\<lambda>i. (flat a ! (2 * i), flat a ! (2 * i + 1))) [0..<shape a ! 0]"

text \<open>
  \<^verbatim>\<open>a[i, j]\<close> on a two-dimensional array: a negative index counts from the end, an
  index out of range raises \<^verbatim>\<open>IndexError\<close>.
\<close>

definition getitem2 :: "ndarray \<Rightarrow> int \<Rightarrow> int \<Rightarrow> error + real" where
  "getitem2 a i j =
     (let n = int (shape a ! 0); m = int (shape a ! 1);
          i' = (if i < 0 then n + i else i);
          j' = (if j < 0 then m + j else j)
      in if 0 \<le> i' \<and> i' < n \<and> 0 \<le> j' \<and> j' < m
         then Inr (flat a ! nat (i' * m + j'))
         else Inl IndexError)"

text \<open>\<^verbatim>\<open>numpy.allclose(a, b)\<close> on scalars, with the default \<^verbatim>\<open>rtol=1e-05, atol=1e-08\<close>.\<close>

definition allclose :: "real \<Rightarrow> real \<Rightarrow> bool" where
  "allclose a b = (\<bar>a - b\<bar> \<le> 1 / 10 ^ 8 + (1 / 10 ^ 5) * \<bar>b\<bar>)"

text \<open>Float arithmetic: \<^verbatim>\<open>nan\<close> is absorbing.\<close>

fun fadd :: "pyfloat \<Rightarrow> pyfloat \<Rightarrow> pyfloat" where
  "fadd (Num a) (Num b) = Num (a + b)"
| "fadd _ _ = NaN"

fun fsub :: "pyfloat \<Rightarrow> pyfloat \<Rightarrow> pyfloat" where
  "fsub (Num a) (Num b) = Num (a - b)"
| "fsub _ _ = NaN"

fun fmul :: "pyfloat \<Rightarrow> pyfloat \<Rightarrow> pyfloat" where
  "fmul (Num a) (Num b) = Num (a * b)"
| "fmul _ _ = NaN"

text \<open>
  numpy's true division of scalars: \<^verbatim>\<open>0.0 / 0\<close> is \<^verbatim>\<open>nan\<close>. A nonzero numerator over
  zero would be an infinity; no division of the two modules reaches that case (the
  numerators are counts bounded by the denominators), and the model has no value for
  it, so it is \<^verbatim>\<open>nan\<close> here too.
\<close>

fun fdiv :: "pyfloat \<Rightarrow> pyfloat \<Rightarrow> pyfloat" where
  "fdiv (Num a) (Num b) = (if b = 0 then NaN else Num (a / b))"
| "fdiv _ _ = NaN"

section \<open>The utility layer\<close>

text \<open>
  \<^verbatim>\<open>mir_eval/util.py\<close> is not among the source files. Its five functions used by the
  two modules are modelled from the specification's description of them.
\<close>

text \<open>
  Modelled from the spec: \<^verbatim>\<open>util.intervals_to_boundaries\<close> is missing. The spec:
  ``a derived, deduplicated, ascending sequence of distinct timestamps obtained from an
  Interval Sequence (start of first interval, followed by end of every interval)''.
\<close>

definition intervals_to_boundaries :: "ndarray \<Rightarrow> real list" where
  "intervals_to_boundaries intervals =
     (case rows intervals of
        [] \<Rightarrow> []
      | (s, e) # rest \<Rightarrow> sort (remdups (s # map snd ((s, e) # rest))))"

text \<open>
  Modelled from the spec: \<^verbatim>\<open>util.match_events\<close> is missing. The spec: ``matching
  pairs, maximum cardinality under the window constraint'', pairs of
  (reference-boundary, estimated-boundary) indices, ``implementable via a sweep that
  pairs in ascending time order, since both sequences are sorted''. The sweep looks at
  the earliest unused event of each sequence: the two are paired when they lie within
  the window, otherwise the earlier one is dropped.
\<close>

fun sweep :: "real \<Rightarrow> (nat \<times> real) list \<Rightarrow> (nat \<times> real) list \<Rightarrow> (nat \<times> nat) list" where
  "sweep w [] es = []"
| "sweep w (r # rs) [] = []"
| "sweep w ((i, r) # rs) ((j, e) # es) =
     (if \<bar>r - e\<bar> \<le> w then (i, j) # sweep w rs es
      else if r < e then sweep w rs ((j, e) # es)
      else sweep w ((i, r) # rs) es)"

text \<open>Modelled from the spec: \<^verbatim>\<open>util.match_events\<close> itself, the sweep over the two sequences with their indices.\<close>

definition match_events :: "real list \<Rightarrow> real list \<Rightarrow> real \<Rightarrow> (nat \<times> nat) list" where
  "match_events ref est window = sweep window (enumerate 0 ref) (enumerate 0 est)"

text \<open>
  Modelled from the spec: \<^verbatim>\<open>util.f_measure\<close> is missing. The spec: ``weighted harmonic
  mean: \<^verbatim>\<open>(1+beta^2) * P * R / (beta^2 * P + R)\<close>, defined as 0 when the denominator is
  0'', ``propagating NaN if either input is NaN (harmonic mean of a NaN is NaN -- no
  special-casing)''.
\<close>

fun f_measure :: "pyfloat \<Rightarrow> pyfloat \<Rightarrow> real \<Rightarrow> pyfloat" where
  "f_measure (Num p) (Num r) beta =
     (if beta\<^sup>2 * p + r = 0 then Num 0
      else Num ((1 + beta\<^sup>2) * p * r / (beta\<^sup>2 * p + r)))"
| "f_measure _ _ beta = NaN"

text \<open>
  Modelled from the spec: \<^verbatim>\<open>util.intervals_to_samples\<close> is missing. The spec: ``sampling
  at uniform steps of \<^verbatim>\<open>frame_size\<close> from 0 up to (effectively) the track's end,
  assigning each sample the label of the interval containing it'', ``rounding down to
  whole multiples of \<^verbatim>\<open>sample_size\<close>'', ``any partial remainder frame is dropped''. The
  track's end is the end of the last interval. Intervals are half-open; a sample that no
  interval contains has no label (\<open>None\<close>). The sample size is positive.
\<close>

fun label_at :: "((real \<times> real) \<times> 'l) list \<Rightarrow> real \<Rightarrow> 'l option" where
  "label_at [] t = None"
| "label_at (((s, e), l) # rest) t = (if s \<le> t \<and> t < e then Some l else label_at rest t)"

text \<open>Modelled from the spec: \<^verbatim>\<open>util.intervals_to_samples\<close> itself, returning the sample times and the sampled labels.\<close>

definition intervals_to_samples ::
  "ndarray \<Rightarrow> 'l list \<Rightarrow> real \<Rightarrow> real list \<times> 'l option list" where
  "intervals_to_samples intervals labels sample_size =
     (let rs = rows intervals;
          n = (if rs = [] then 0 else nat \<lfloor>snd (last rs) / sample_size\<rfloor>);
          sample_times = map (\<lambda>k. real k * sample_size) [0..<n]
      in (sample_times, map (label_at (zip rs labels)) sample_times))"

text \<open>
  Modelled from the spec: \<^verbatim>\<open>util.index_labels\<close> is missing. The spec:
  ``\<^verbatim>\<open>index_labels(labels) -> (integer_ids, id_to_label_mapping)\<close>'', ``mapping each
  distinct label value to a contiguous integer id range'', ``a mapping-based id
  assignment, preserving first-seen order''.
\<close>

fun index_of :: "'a list \<Rightarrow> 'a \<Rightarrow> nat" where
  "index_of [] x = 0"
| "index_of (y # ys) x = (if x = y then 0 else Suc (index_of ys x))"

text \<open>Modelled from the spec: the distinct labels of \<^verbatim>\<open>util.index_labels\<close> in first-seen order, and the function itself.\<close>

definition first_seen :: "'a list \<Rightarrow> 'a list" where
  "first_seen labels = rev (remdups (rev labels))"

definition index_labels :: "'a list \<Rightarrow> nat list \<times> (nat \<rightharpoonup> 'a)" where
  "index_labels labels =
     (let table = first_seen labels
      in (map (index_of table) labels,
          \<lambda>i. if i < length table then Some (table ! i) else None))"

section \<open>Boundary metrics (\<^verbatim>\<open>boundary.py\<close>)\<close>

text \<open>\<^verbatim>\<open>__validate_intervals\<close> of \<^verbatim>\<open>boundary.py\<close>; the message of the last error is kept without the formatted interval.\<close>

definition boundary_validate_intervals :: "ndarray \<Rightarrow> error + unit" where
  "boundary_validate_intervals intervals =
     (if ndim intervals \<noteq> 2 \<or> shape intervals ! 1 \<noteq> 2
      then Inl (ValueError ''Segment intervals should be n-by-2 numpy ndarray'')
      else if \<exists>x \<in> set (flat intervals). x < 0
      then Inl (ValueError ''Negative interval times found'')
      else if \<exists>(start, stop) \<in> set (rows intervals). stop - start \<le> 0
      then Inl (ValueError ''Non-positive interval detected'')
      else Inr ())"

text \<open>The decorator \<^verbatim>\<open>validate\<close> of \<^verbatim>\<open>boundary.py\<close>: the reference is checked first.\<close>

definition boundary_validate ::
  "(ndarray \<Rightarrow> ndarray \<Rightarrow> error + 'a) \<Rightarrow> ndarray \<Rightarrow> ndarray \<Rightarrow> error + 'a" where
  "boundary_validate metric reference_intervals estimated_intervals =
     (case boundary_validate_intervals reference_intervals of
        Inl err \<Rightarrow> Inl err
      | Inr _ \<Rightarrow>
          (case boundary_validate_intervals estimated_intervals of
             Inl err \<Rightarrow> Inl err
           | Inr _ \<Rightarrow> metric reference_intervals estimated_intervals))"

text \<open>The slice \<^verbatim>\<open>xs[1:-1]\<close>.\<close>

definition trim_ends :: "'a list \<Rightarrow> 'a list" where
  "trim_ends xs = butlast (tl xs)"

text \<open>The boundary sets of both metrics after the optional trim (lines 101--108 and 153--160).\<close>

definition boundaries :: "ndarray \<Rightarrow> bool \<Rightarrow> real list" where
  "boundaries intervals trim =
     (let bs = intervals_to_boundaries intervals
      in if trim then trim_ends bs else bs)"

text \<open>The body of \<^verbatim>\<open>detection\<close>, and \<^verbatim>\<open>detection\<close> as decorated.\<close>

definition detection_metric ::
  "ndarray \<Rightarrow> ndarray \<Rightarrow> real \<Rightarrow> real \<Rightarrow> bool \<Rightarrow> pyfloat \<times> pyfloat \<times> pyfloat" where
  "detection_metric reference_intervals estimated_intervals window beta trim =
     (let reference_boundaries = boundaries reference_intervals trim;
          estimated_boundaries = boundaries estimated_intervals trim
      in if length reference_boundaries = 0 \<or> length estimated_boundaries = 0
         then (Num 0, Num 0, Num 0)
         else
           (let matching = match_events reference_boundaries estimated_boundaries window;
                precision = Num (real (length matching) / real (length estimated_boundaries));
                recall = Num (real (length matching) / real (length reference_boundaries))
            in (precision, recall, f_measure precision recall beta)))"

definition detection ::
  "ndarray \<Rightarrow> ndarray \<Rightarrow> real \<Rightarrow> real \<Rightarrow> bool \<Rightarrow> error + (pyfloat \<times> pyfloat \<times> pyfloat)" where
  "detection reference_intervals estimated_intervals window beta trim =
     boundary_validate (\<lambda>r e. Inr (detection_metric r e window beta trim))
       reference_intervals estimated_intervals"

text \<open>
  Matrices are lists of rows. \<open>columns\<close> lists the columns of a rectangular matrix;
  \<^verbatim>\<open>m.min(axis=1)\<close> takes the minimum of every row, \<^verbatim>\<open>m.min(axis=0)\<close> of every column.
\<close>

definition columns :: "'a list list \<Rightarrow> 'a list list" where
  "columns m = (case m of [] \<Rightarrow> [] | r # _ \<Rightarrow> map (\<lambda>j. map (\<lambda>row. row ! j) m) [0..<length r])"

definition min_axis1 :: "real list list \<Rightarrow> real list" where
  "min_axis1 m = map min_list m"

definition min_axis0 :: "real list list \<Rightarrow> real list" where
  "min_axis0 m = map min_list (columns m)"

text \<open>\<^verbatim>\<open>np.abs(np.subtract.outer(a, b))\<close>.\<close>

definition abs_subtract_outer :: "real list \<Rightarrow> real list \<Rightarrow> real list list" where
  "abs_subtract_outer a b = map (\<lambda>x. map (\<lambda>y. \<bar>x - y\<bar>) b) a"

text \<open>\<^verbatim>\<open>np.median\<close> of a vector: the middle of the sorted entries, the mean of the two middle ones for an even count, \<^verbatim>\<open>nan\<close> for none.\<close>

definition median :: "real list \<Rightarrow> pyfloat" where
  "median v =
     (let s = sort v; n = length v
      in if n = 0 then NaN
         else if odd n then Num (s ! (n div 2))
         else Num ((s ! (n div 2 - 1) + s ! (n div 2)) / 2))"

definition deviation_metric :: "ndarray \<Rightarrow> ndarray \<Rightarrow> bool \<Rightarrow> pyfloat \<times> pyfloat" where
  "deviation_metric reference_intervals estimated_intervals trim =
     (let reference_boundaries = boundaries reference_intervals trim;
          estimated_boundaries = boundaries estimated_intervals trim
      in if length reference_boundaries = 0 \<or> length estimated_boundaries = 0
         then (NaN, NaN)
         else
           (let dist = abs_subtract_outer reference_boundaries estimated_boundaries;
                estimated_to_reference = median (min_axis0 dist);
                reference_to_estimated = median (min_axis1 dist)
            in (reference_to_estimated, estimated_to_reference)))"

definition deviation :: "ndarray \<Rightarrow> ndarray \<Rightarrow> bool \<Rightarrow> error + (pyfloat \<times> pyfloat)" where
  "deviation reference_intervals estimated_intervals trim =
     boundary_validate (\<lambda>r e. Inr (deviation_metric r e trim))
       reference_intervals estimated_intervals"

section \<open>Structure metrics (\<^verbatim>\<open>structure.py\<close>)\<close>

text \<open>\<^verbatim>\<open>__validate_intervals\<close> of \<^verbatim>\<open>structure.py\<close>: the shape and the sign of the times, and no check of the durations.\<close>

definition structure_validate_intervals :: "ndarray \<Rightarrow> error + unit" where
  "structure_validate_intervals intervals =
     (if ndim intervals \<noteq> 2 \<or> shape intervals ! 1 \<noteq> 2
      then Inl (ValueError ''Segment intervals should be n-by-2 numpy ndarray'')
      else if \<exists>x \<in> set (flat intervals). x < 0
      then Inl (ValueError ''Negative interval times found'')
      else Inr ())"

text \<open>The body of the loop of \<^verbatim>\<open>metric_validated\<close> (lines 49--55), for one (intervals, labels) pair.\<close>

definition structure_validate_pair :: "ndarray \<Rightarrow> 'l list \<Rightarrow> error + unit" where
  "structure_validate_pair intervals labels =
     (case structure_validate_intervals intervals of
        Inl err \<Rightarrow> Inl err
      | Inr _ \<Rightarrow>
          if shape intervals ! 0 \<noteq> length labels
          then Inl (ValueError ''Number of intervals does not match number of labels'')
          else
            (case getitem2 intervals 0 0 of
               Inl err \<Rightarrow> Inl err
             | Inr start \<Rightarrow>
                 if \<not> allclose start 0
                 then Inl (ValueError ''Segment intervals do not start at 0'')
                 else Inr ()))"

text \<open>The decorator \<^verbatim>\<open>validate\<close> of \<^verbatim>\<open>structure.py\<close> (lines 41--63).\<close>

definition structure_validate ::
  "(ndarray \<Rightarrow> 'l list \<Rightarrow> ndarray \<Rightarrow> 'l list \<Rightarrow> error + 'a) \<Rightarrow>
   ndarray \<Rightarrow> 'l list \<Rightarrow> ndarray \<Rightarrow> 'l list \<Rightarrow> error + 'a" where
  "structure_validate metric reference_intervals reference_labels
       estimated_intervals estimated_labels =
     (case structure_validate_pair reference_intervals reference_labels of
        Inl err \<Rightarrow> Inl err
      | Inr _ \<Rightarrow>
     (case structure_validate_pair estimated_intervals estimated_labels of
        Inl err \<Rightarrow> Inl err
      | Inr _ \<Rightarrow>
     (case getitem2 reference_intervals (- 1) 1 of
        Inl err \<Rightarrow> Inl err
      | Inr ref_end \<Rightarrow>
     (case getitem2 estimated_intervals (- 1) 1 of
        Inl err \<Rightarrow> Inl err
      | Inr est_end \<Rightarrow>
          if \<not> allclose ref_end est_end
          then Inl (ValueError ''End times do not match'')
          else metric reference_intervals reference_labels
                 estimated_intervals estimated_labels))))"

text \<open>The frame labels of one annotation (lines 119--123): sampling, then indexing.\<close>

definition frame_labels :: "ndarray \<Rightarrow> 'l list \<Rightarrow> real \<Rightarrow> nat list" where
  "frame_labels intervals labels frame_size =
     fst (index_labels (snd (intervals_to_samples intervals labels frame_size)))"

text \<open>\<^verbatim>\<open>np.equal.outer(a, b)\<close>, \<^verbatim>\<open>np.triu(m)\<close> (with its default \<^verbatim>\<open>k=0\<close>: the entries below the main diagonal are cleared) and \<^verbatim>\<open>m.sum()\<close> of a boolean matrix.\<close>

definition equal_outer :: "'a list \<Rightarrow> 'a list \<Rightarrow> bool list list" where
  "equal_outer a b = map (\<lambda>x. map (\<lambda>y. x = y) b) a"

definition triu :: "bool list list \<Rightarrow> bool list list" where
  "triu m = map (\<lambda>(i, row). map (\<lambda>(j, v). i \<le> j \<and> v) (enumerate 0 row)) (enumerate 0 m)"

definition count_true :: "bool list list \<Rightarrow> nat" where
  "count_true m = sum_list (map (\<lambda>row. length (filter id row)) m)"

text \<open>
  \<^verbatim>\<open>a & b\<close> on two square boolean matrices: entrywise when the sizes agree; a 1-by-1
  operand is broadcast over the other; any other pair of sizes raises.
\<close>

definition logical_and :: "bool list list \<Rightarrow> bool list list \<Rightarrow> error + bool list list" where
  "logical_and a b =
     (if length a = length b then Inr (map2 (map2 (\<and>)) a b)
      else if length a = 1 then Inr (map (map (\<lambda>v. hd (hd a) \<and> v)) b)
      else if length b = 1 then Inr (map (map (\<lambda>v. v \<and> hd (hd b))) a)
      else Inl (ValueError ''operands could not be broadcast together''))"

text \<open>The counting part of \<^verbatim>\<open>pairwise\<close> (lines 132--141) on two frame-label sequences.\<close>

definition pairwise_frames ::
  "nat list \<Rightarrow> nat list \<Rightarrow> real \<Rightarrow> error + (pyfloat \<times> pyfloat \<times> pyfloat)" where
  "pairwise_frames y_ref y_est beta =
     (let agree_ref = triu (equal_outer y_ref y_ref);
          agree_est = triu (equal_outer y_est y_est)
      in case logical_and agree_ref agree_est of
           Inl err \<Rightarrow> Inl err
         | Inr both \<Rightarrow>
             (let matches = Num (real (count_true both));
                  precision = fdiv matches (Num (real (count_true agree_est)));
                  recall = fdiv matches (Num (real (count_true agree_ref)))
              in Inr (precision, recall, f_measure precision recall beta)))"

definition pairwise_metric ::
  "ndarray \<Rightarrow> 'l list \<Rightarrow> ndarray \<Rightarrow> 'l list \<Rightarrow> real \<Rightarrow> real \<Rightarrow>
   error + (pyfloat \<times> pyfloat \<times> pyfloat)" where
  "pairwise_metric reference_intervals reference_labels estimated_intervals estimated_labels
       frame_size beta =
     pairwise_frames (frame_labels reference_intervals reference_labels frame_size)
       (frame_labels estimated_intervals estimated_labels frame_size) beta"

definition pairwise ::
  "ndarray \<Rightarrow> 'l list \<Rightarrow> ndarray \<Rightarrow> 'l list \<Rightarrow> real \<Rightarrow> real \<Rightarrow>
   error + (pyfloat \<times> pyfloat \<times> pyfloat)" where
  "pairwise reference_intervals reference_labels estimated_intervals estimated_labels
       frame_size beta =
     structure_validate (\<lambda>ri rl ei el. pairwise_metric ri rl ei el frame_size beta)
       reference_intervals reference_labels estimated_intervals estimated_labels"

text \<open>
  \<^verbatim>\<open>np.unique\<close> and \<^verbatim>\<open>sklearn.metrics.cluster.contingency_matrix\<close>: entry \<open>(i, j)\<close> counts
  the frames whose true label is the \<open>i\<close>-th distinct true label and whose predicted
  label is the \<open>j\<close>-th distinct predicted label. Label vectors of different lengths
  raise.
\<close>

definition unique :: "nat list \<Rightarrow> nat list" where
  "unique xs = sort (remdups xs)"

definition contingency_matrix :: "nat list \<Rightarrow> nat list \<Rightarrow> error + real list list" where
  "contingency_matrix labels_true labels_pred =
     (if length labels_true \<noteq> length labels_pred
      then Inl (ValueError ''row, column, and data array must all be the same length'')
      else Inr (map (\<lambda>c. map (\<lambda>k. real (length (filter (\<lambda>(t, p). t = c \<and> p = k)
                                 (zip labels_true labels_pred))))
                          (unique labels_pred))
                    (unique labels_true)))"

text \<open>
  \<^verbatim>\<open>scipy.stats.entropy(pk, base)\<close>: every column of \<open>pk\<close> is normalised to sum 1, and
  its entropy is \<open>- \<Sum> p * ln p\<close> (a zero entry contributes 0) divided by \<open>ln base\<close>.
  A nonempty column that sums to 0 normalises to \<^verbatim>\<open>nan\<close>.
\<close>

definition entr :: "real \<Rightarrow> real" where
  "entr p = (if p = 0 then 0 else - p * ln p)"

definition entropy_vec :: "real list \<Rightarrow> real \<Rightarrow> pyfloat" where
  "entropy_vec pk base =
     (if pk = [] then Num 0
      else (let s = sum_list pk
            in if s = 0 then NaN
               else Num (sum_list (map (\<lambda>p. entr (p / s)) pk) / ln base)))"

definition entropy :: "real list list \<Rightarrow> real \<Rightarrow> pyfloat list" where
  "entropy pk base = map (\<lambda>col. entropy_vec col base) (columns pk)"

text \<open>\<^verbatim>\<open>p.dot(h)\<close> of two vectors.\<close>

definition dot :: "real list \<Rightarrow> pyfloat list \<Rightarrow> pyfloat" where
  "dot p h = foldr fadd (map2 (\<lambda>x y. fmul (Num x) y) p h) (Num 0)"

text \<open>The scoring part of \<^verbatim>\<open>nce\<close> (lines 325--352) on two frame-label sequences; \<^verbatim>\<open>contingency.T\<close> is \<open>columns contingency\<close>.\<close>

definition nce_frames ::
  "nat list \<Rightarrow> nat list \<Rightarrow> real \<Rightarrow> error + (pyfloat \<times> pyfloat \<times> pyfloat)" where
  "nce_frames y_ref y_est beta =
     (case contingency_matrix y_ref y_est of
        Inl err \<Rightarrow> Inl err
      | Inr counts \<Rightarrow>
          (let contingency = map (map (\<lambda>c. c / real (length y_ref))) counts;
               n_ref = length contingency;
               n_est = (case contingency of [] \<Rightarrow> 0 | r # _ \<Rightarrow> length r);
               p_est = map sum_list (columns contingency);
               p_ref = map sum_list contingency;
               true_given_est = dot p_est (entropy contingency 2);
               pred_given_ref = dot p_ref (entropy (columns contingency) 2);
               score_under = (if n_ref > 1
                              then fsub (Num 1) (fdiv true_given_est (Num (log 2 (real n_ref))))
                              else NaN);
               score_over = (if n_est > 1
                             then fsub (Num 1) (fdiv pred_given_ref (Num (log 2 (real n_est))))
                             else NaN)
           in Inr (score_over, score_under, f_measure score_over score_under beta)))"

definition nce_metric ::
  "ndarray \<Rightarrow> 'l list \<Rightarrow> ndarray \<Rightarrow> 'l list \<Rightarrow> real \<Rightarrow> real \<Rightarrow>
   error + (pyfloat \<times> pyfloat \<times> pyfloat)" where
  "nce_metric reference_intervals reference_labels estimated_intervals estimated_labels
       frame_size beta =
     nce_frames (frame_labels reference_intervals reference_labels frame_size)
       (frame_labels estimated_intervals estimated_labels frame_size) beta"

definition nce ::
  "ndarray \<Rightarrow> 'l list \<Rightarrow> ndarray \<Rightarrow> 'l list \<Rightarrow> real \<Rightarrow> real \<Rightarrow>
   error + (pyfloat \<times> pyfloat \<times> pyfloat)" where
  "nce reference_intervals reference_labels estimated_intervals estimated_labels
       frame_size beta =
     structure_validate (\<lambda>ri rl ei el. nce_metric ri rl ei el frame_size beta)
       reference_intervals reference_labels estimated_intervals estimated_labels"

section \<open>Notions used to state the properties\<close>

text \<open>
  \<^verbatim>\<open>intervals[0, 0]\<close> and \<^verbatim>\<open>intervals[-1, 1]\<close> of a nonempty n-by-2 array, and the
  conditions on one (intervals, labels) pair that the specification lists for the
  structure validator: the shape, no negative time, one label per interval, a first
  interval, and a start at approximately 0. No condition constrains a duration.
\<close>

definition first_start :: "ndarray \<Rightarrow> real" where
  "first_start intervals = flat intervals ! 0"

definition final_end :: "ndarray \<Rightarrow> real" where
  "final_end intervals = flat intervals ! (2 * (shape intervals ! 0) - 1)"

definition accepted_pair :: "ndarray \<Rightarrow> 'l list \<Rightarrow> bool" where
  "accepted_pair intervals labels \<longleftrightarrow>
     ndim intervals = 2 \<and> shape intervals ! 1 = 2
     \<and> \<not> (\<exists>x \<in> set (flat intervals). x < 0)
     \<and> shape intervals ! 0 = length labels
     \<and> 0 < shape intervals ! 0
     \<and> allclose (first_start intervals) 0"

text \<open>
  The conditional entropy of the specification, in bits, stated on the two frame-label
  sequences themselves: \<open>H(Y | X)\<close> is the sum over the clusters \<open>x\<close> of \<open>X\<close> of
  the frequency of \<open>x\<close> times the entropy of the distribution of the \<open>Y\<close>-labels
  among the frames that \<open>X\<close> labels \<open>x\<close>. \<open>joint_count xs ys x y\<close> counts the
  frames labelled \<open>x\<close> by \<open>xs\<close> and \<open>y\<close> by \<open>ys\<close>.
\<close>

definition joint_count :: "nat list \<Rightarrow> nat list \<Rightarrow> nat \<Rightarrow> nat \<Rightarrow> nat" where
  "joint_count xs ys x y = length (filter (\<lambda>(a, b). a = x \<and> b = y) (zip xs ys))"

definition plog2 :: "real \<Rightarrow> real" where
  "plog2 p = (if p = 0 then 0 else - p * log 2 p)"

definition conditional_entropy :: "nat list \<Rightarrow> nat list \<Rightarrow> real" where
  "conditional_entropy ys xs =
     (\<Sum>x \<in> set xs. real (count_list xs x) / real (length xs)
        * (\<Sum>y \<in> set ys. plog2 (real (joint_count xs ys x y) / real (count_list xs x))))"

text \<open>
  A matching under the window constraint, as the specification describes it: a set of
  (reference index, estimate index) pairs, every pair within the window, every
  boundary used at most once.
\<close>

definition is_matching :: "real list \<Rightarrow> real list \<Rightarrow> real \<Rightarrow> (nat \<times> nat) set \<Rightarrow> bool" where
  "is_matching ref est window M \<longleftrightarrow>
     (\<forall>(i, j) \<in> M. i < length ref \<and> j < length est \<and> \<bar>ref ! i - est ! j\<bar> \<le> window)
   \<and> (\<forall>(i, j) \<in> M. \<forall>(i', j') \<in> M. (i = i') = (j = j'))"

section \<open>Boundary metrics: degenerate inputs and symmetry\<close>

lemma boundary_validate_ok:
  "boundary_validate_intervals r = Inr () \<Longrightarrow> boundary_validate_intervals e = Inr () \<Longrightarrow>
   boundary_validate metric r e = metric r e"
  by (simp add: boundary_validate_def)

lemma boundary_validate_Inr:
  "boundary_validate metric r e = Inr v \<Longrightarrow>
   boundary_validate_intervals r = Inr () \<and> boundary_validate_intervals e = Inr ()
   \<and> metric r e = Inr v"
  by (auto simp: boundary_validate_def split: sum.splits)

lemma rows_one: "rows \<lparr>shape = [Suc 0, 2], flat = [a, b]\<rparr> = [(a, b)]"
  by (simp add: rows_def)

lemma boundary_valid_one:
  "0 \<le> a \<Longrightarrow> a < b \<Longrightarrow> boundary_validate_intervals \<lparr>shape = [1, 2], flat = [a, b]\<rparr> = Inr ()"
  by (simp add: boundary_validate_intervals_def ndim_def rows_one)

text \<open>
  Claim C4. For two interval sequences that pass the boundary validator, if either
  boundary set is empty after the optional trim, \<open>detection\<close> returns exactly
  \<open>(0.0, 0.0, 0.0)\<close> and \<open>deviation\<close> returns exactly \<open>(nan, nan)\<close>; neither raises.
\<close>

theorem degenerate_boundaries_sentinels:
  assumes "boundary_validate_intervals reference_intervals = Inr ()"
      and "boundary_validate_intervals estimated_intervals = Inr ()"
      and "boundaries reference_intervals trim = [] \<or> boundaries estimated_intervals trim = []"
  shows "detection reference_intervals estimated_intervals window beta trim
           = Inr (Num 0, Num 0, Num 0)
       \<and> deviation reference_intervals estimated_intervals trim = Inr (NaN, NaN)"
  using assms
  by (auto simp: detection_def deviation_def boundary_validate_ok detection_metric_def
      deviation_metric_def)

theorem degenerate_boundaries_sentinels_witness:
  "boundary_validate_intervals \<lparr>shape = [1, 2], flat = [0, 1]\<rparr> = Inr ()
   \<and> boundaries \<lparr>shape = [1, 2], flat = [0, 1]\<rparr> True = []
   \<and> detection \<lparr>shape = [1, 2], flat = [0, 1]\<rparr> \<lparr>shape = [1, 2], flat = [0, 1]\<rparr> (1 / 2) 1 True
       = Inr (Num 0, Num 0, Num 0)
   \<and> deviation \<lparr>shape = [1, 2], flat = [0, 1]\<rparr> \<lparr>shape = [1, 2], flat = [0, 1]\<rparr> True
       = Inr (NaN, NaN)"
proof -
  have v: "boundary_validate_intervals \<lparr>shape = [1, 2], flat = [0, 1]\<rparr> = Inr ()"
    by (rule boundary_valid_one) simp_all
  have b: "boundaries \<lparr>shape = [1, 2], flat = [0, 1]\<rparr> True = []"
    by (simp add: boundaries_def intervals_to_boundaries_def rows_one trim_ends_def)
  from degenerate_boundaries_sentinels [OF v v, of True "1 / 2" 1] b v show ?thesis by simp
qed

lemma columns_abs_subtract_outer:
  assumes "a \<noteq> []"
  shows "columns (abs_subtract_outer a b) = abs_subtract_outer b a"
proof -
  from assms obtain x xs where a: "a = x # xs" by (cases a) auto
  have "columns (abs_subtract_outer a b) =
        map (\<lambda>j. map (\<lambda>x. \<bar>x - b ! j\<bar>) a) [0..<length b]"
    by (simp add: columns_def abs_subtract_outer_def a)
  also have "\<dots> = map (\<lambda>y. map (\<lambda>x. \<bar>x - y\<bar>) a) (map ((!) b) [0..<length b])"
    by (simp add: comp_def)
  also have "\<dots> = map (\<lambda>y. map (\<lambda>x. \<bar>y - x\<bar>) a) b"
    by (simp add: map_nth abs_minus_commute)
  finally show ?thesis by (simp add: abs_subtract_outer_def)
qed

text \<open>
  Claim C7. Swapping the two arguments of \<open>deviation\<close> swaps its two outputs: if
  \<open>deviation a b\<close> returns \<open>(x, y)\<close> then \<open>deviation b a\<close> returns \<open>(y, x)\<close>.
\<close>

theorem deviation_swap:
  assumes "deviation a b trim = Inr (x, y)"
  shows "deviation b a trim = Inr (y, x)"
proof -
  from boundary_validate_Inr [OF assms [unfolded deviation_def]]
  have va: "boundary_validate_intervals a = Inr ()"
    and vb: "boundary_validate_intervals b = Inr ()"
    and m: "deviation_metric a b trim = (x, y)" by auto
  have "deviation_metric b a trim = (y, x)"
  proof (cases "boundaries a trim = [] \<or> boundaries b trim = []")
    case True
    with m show ?thesis by (auto simp: deviation_metric_def)
  next
    case False
    then have na: "boundaries a trim \<noteq> []" and nb: "boundaries b trim \<noteq> []" by auto
    from m na nb show ?thesis
      by (auto simp: deviation_metric_def Let_def min_axis0_def min_axis1_def
          columns_abs_subtract_outer)
  qed
  with va vb show ?thesis by (simp add: deviation_def boundary_validate_ok)
qed

theorem deviation_swap_witness:
  "deviation \<lparr>shape = [1, 2], flat = [0, 1]\<rparr> \<lparr>shape = [2, 2], flat = [0, 3, 3, 4]\<rparr> False
     = Inr (Num (1 / 2), Num 2)
   \<and> deviation \<lparr>shape = [2, 2], flat = [0, 3, 3, 4]\<rparr> \<lparr>shape = [1, 2], flat = [0, 1]\<rparr> False
     = Inr (Num 2, Num (1 / 2))"
proof -
  have d: "deviation \<lparr>shape = [1, 2], flat = [0, 1]\<rparr> \<lparr>shape = [2, 2], flat = [0, 3, 3, 4]\<rparr> False
     = Inr (Num (1 / 2), Num 2)"
    by code_simp
  from deviation_swap [OF d] d show ?thesis by simp
qed

section \<open>The structure validator\<close>

lemma getitem2_first:
  "getitem2 a 0 0 = Inr v \<Longrightarrow> 0 < shape a ! 0 \<and> 0 < shape a ! 1 \<and> v = flat a ! 0"
  by (auto simp: getitem2_def Let_def split: if_splits)

lemma getitem2_last_end:
  "0 < shape a ! 0 \<Longrightarrow> shape a ! 1 = 2 \<Longrightarrow> getitem2 a (- 1) 1 = Inr (flat a ! (2 * shape a ! 0 - 1))"
proof -
  assume a: "0 < shape a ! 0" "shape a ! 1 = 2"
  define n where "n = shape a ! 0"
  have "0 < n" using a by (simp add: n_def)
  then have "nat ((int n - 1) * 2 + 1) = 2 * n - 1" by (cases n) (simp_all add: nat_eq_iff)
  with a show ?thesis by (simp add: getitem2_def Let_def n_def)
qed

lemma structure_validate_pair_Inr:
  "structure_validate_pair intervals labels = Inr () \<longleftrightarrow>
     ndim intervals = 2 \<and> shape intervals ! 1 = 2 \<and> (\<forall>x \<in> set (flat intervals). 0 \<le> x)
     \<and> shape intervals ! 0 = length labels \<and> 0 < shape intervals ! 0
     \<and> allclose (flat intervals ! 0) 0"
proof
  assume "structure_validate_pair intervals labels = Inr ()"
  then show "ndim intervals = 2 \<and> shape intervals ! 1 = 2 \<and> (\<forall>x \<in> set (flat intervals). 0 \<le> x)
     \<and> shape intervals ! 0 = length labels \<and> 0 < shape intervals ! 0
     \<and> allclose (flat intervals ! 0) 0"
    by (fastforce simp: structure_validate_pair_def structure_validate_intervals_def getitem2_def
        Let_def split: sum.splits if_splits)
next
  assume a: "ndim intervals = 2 \<and> shape intervals ! 1 = 2 \<and> (\<forall>x \<in> set (flat intervals). 0 \<le> x)
     \<and> shape intervals ! 0 = length labels \<and> 0 < shape intervals ! 0
     \<and> allclose (flat intervals ! 0) 0"
  then have "structure_validate_intervals intervals = Inr ()"
    by (auto simp: structure_validate_intervals_def)
  moreover from a have "getitem2 intervals 0 0 = Inr (flat intervals ! 0)"
    by (auto simp: getitem2_def)
  ultimately show "structure_validate_pair intervals labels = Inr ()"
    using a by (simp add: structure_validate_pair_def)
qed

lemma allclose_refl: "allclose a a"
  by (simp add: allclose_def)

lemma structure_validate_same:
  assumes "structure_validate_pair intervals labels = Inr ()"
  shows "structure_validate metric intervals labels intervals labels
         = metric intervals labels intervals labels"
proof -
  from assms have "0 < shape intervals ! 0" "shape intervals ! 1 = 2"
    unfolding structure_validate_pair_Inr by blast+
  from getitem2_last_end [OF this] assms show ?thesis
    by (simp add: structure_validate_def allclose_refl)
qed

lemma accepted_pair_iff: "structure_validate_pair intervals labels = Inr () \<longleftrightarrow> accepted_pair intervals labels"
  by (auto simp: structure_validate_pair_Inr accepted_pair_def first_start_def not_less)

lemma structure_validate_pair_not_end_error:
  "structure_validate_pair intervals labels \<noteq> Inl (ValueError ''End times do not match'')"
  by (auto simp: structure_validate_pair_def structure_validate_intervals_def getitem2_def Let_def
      split: sum.splits if_splits)

lemma structure_validate_pair_count:
  "shape intervals ! 0 \<noteq> length labels \<Longrightarrow> isl (structure_validate_pair intervals labels)"
  by (auto simp: structure_validate_pair_def split: sum.splits)

lemma structure_validate_pair_start:
  "\<not> allclose (first_start intervals) 0 \<Longrightarrow> isl (structure_validate_pair intervals labels)"
  by (cases "structure_validate_pair intervals labels")
     (auto simp: accepted_pair_iff accepted_pair_def)

lemma structure_validate_first:
  "structure_validate_pair ri rl = Inl err \<Longrightarrow> structure_validate metric ri rl ei el = Inl err"
  by (simp add: structure_validate_def)

lemma structure_validate_second:
  "structure_validate_pair ri rl = Inr () \<Longrightarrow> structure_validate_pair ei el = Inl err \<Longrightarrow>
   structure_validate metric ri rl ei el = Inl err"
  by (simp add: structure_validate_def)

lemma structure_validate_ends:
  assumes "structure_validate_pair ri rl = Inr ()" "structure_validate_pair ei el = Inr ()"
  shows "structure_validate metric ri rl ei el =
         (if \<not> allclose (final_end ri) (final_end ei)
          then Inl (ValueError ''End times do not match'')
          else metric ri rl ei el)"
proof -
  from assms(1) have r: "0 < shape ri ! 0" "shape ri ! 1 = 2"
    unfolding structure_validate_pair_Inr by blast+
  from assms(2) have e: "0 < shape ei ! 0" "shape ei ! 1 = 2"
    unfolding structure_validate_pair_Inr by blast+
  from getitem2_last_end [OF r] getitem2_last_end [OF e] assms show ?thesis
    by (simp add: structure_validate_def final_end_def)
qed

text \<open>
  Claim C5. The structure validator, in front of any metric, raises when the label
  count differs from the interval count and when a first interval does not start at
  approximately 0; only when both sequences pass their own checks does it compare the
  final end times, raising when they differ beyond the tolerance of \<open>allclose\<close>; and
  what it accepts is characterised by \<open>accepted_pair\<close>, which puts no condition on the
  durations (only on the sign of the times).
\<close>

theorem structure_validate_contract:
  "(shape ri ! 0 \<noteq> length rl \<or> shape ei ! 0 \<noteq> length el
      \<longrightarrow> isl (structure_validate metric ri rl ei el))
 \<and> (\<not> allclose (first_start ri) 0 \<or> \<not> allclose (first_start ei) 0
      \<longrightarrow> isl (structure_validate metric ri rl ei el))
 \<and> (structure_validate_pair ri rl = Inr () \<and> structure_validate_pair ei el = Inr ()
      \<and> \<not> allclose (final_end ri) (final_end ei)
      \<longrightarrow> structure_validate metric ri rl ei el = Inl (ValueError ''End times do not match''))
 \<and> (\<forall>err. structure_validate_pair ri rl = Inl err
        \<or> (structure_validate_pair ri rl = Inr () \<and> structure_validate_pair ei el = Inl err)
      \<longrightarrow> structure_validate metric ri rl ei el = Inl err
          \<and> err \<noteq> ValueError ''End times do not match'')
 \<and> (structure_validate_pair ri rl = Inr () \<longleftrightarrow> accepted_pair ri rl)
 \<and> (accepted_pair ri rl \<and> accepted_pair ei el \<and> allclose (final_end ri) (final_end ei)
      \<longrightarrow> structure_validate metric ri rl ei el = metric ri rl ei el)"
proof (intro conjI impI allI)
  assume "shape ri ! 0 \<noteq> length rl \<or> shape ei ! 0 \<noteq> length el"
  then show "isl (structure_validate metric ri rl ei el)"
    using structure_validate_pair_count [of ri rl] structure_validate_pair_count [of ei el]
    by (cases "structure_validate_pair ri rl"; cases "structure_validate_pair ei el")
       (auto simp: structure_validate_first structure_validate_second)
next
  assume "\<not> allclose (first_start ri) 0 \<or> \<not> allclose (first_start ei) 0"
  then show "isl (structure_validate metric ri rl ei el)"
    using structure_validate_pair_start [of ri rl] structure_validate_pair_start [of ei el]
    by (cases "structure_validate_pair ri rl"; cases "structure_validate_pair ei el")
       (auto simp: structure_validate_first structure_validate_second)
next
  assume "structure_validate_pair ri rl = Inr () \<and> structure_validate_pair ei el = Inr ()
      \<and> \<not> allclose (final_end ri) (final_end ei)"
  then show "structure_validate metric ri rl ei el = Inl (ValueError ''End times do not match'')"
    by (simp add: structure_validate_ends)
next
  fix err
  assume a: "structure_validate_pair ri rl = Inl err
        \<or> (structure_validate_pair ri rl = Inr () \<and> structure_validate_pair ei el = Inl err)"
  then show "structure_validate metric ri rl ei el = Inl err"
    by (auto simp: structure_validate_first structure_validate_second)
  from a show "err \<noteq> ValueError ''End times do not match''"
    using structure_validate_pair_not_end_error [of ri rl]
      structure_validate_pair_not_end_error [of ei el] by auto
next
  show "structure_validate_pair ri rl = Inr () \<longleftrightarrow> accepted_pair ri rl"
    by (rule accepted_pair_iff)
next
  assume "accepted_pair ri rl \<and> accepted_pair ei el \<and> allclose (final_end ri) (final_end ei)"
  then show "structure_validate metric ri rl ei el = metric ri rl ei el"
    by (simp add: structure_validate_ends accepted_pair_iff)
qed

theorem structure_validate_contract_witness:
  "accepted_pair \<lparr>shape = [2, 2], flat = [0, 3, 3, 2]\<rparr> [''a'', ''b'']
   \<and> accepted_pair \<lparr>shape = [1, 2], flat = [0, 2]\<rparr> [''c'']
   \<and> allclose (final_end \<lparr>shape = [2, 2], flat = [0, 3, 3, 2]\<rparr>)
        (final_end \<lparr>shape = [1, 2], flat = [0, 2]\<rparr>)
   \<and> (\<exists>(s, e) \<in> set (rows \<lparr>shape = [2, 2], flat = [0, 3, 3, 2]\<rparr>). e - s \<le> 0)
   \<and> structure_validate (\<lambda>ri rl ei el. Inr (length rl + length el))
        \<lparr>shape = [2, 2], flat = [0, 3, 3, 2]\<rparr> [''a'', ''b'']
        \<lparr>shape = [1, 2], flat = [0, 2]\<rparr> [''c''] = Inr 3"
proof -
  have a: "accepted_pair \<lparr>shape = [2, 2], flat = [0, 3, 3, 2]\<rparr> [''a'', ''b'']"
    by code_simp
  have b: "accepted_pair \<lparr>shape = [1, 2], flat = [0, 2]\<rparr> [''c'']"
    by code_simp
  have c: "allclose (final_end \<lparr>shape = [2, 2], flat = [0, 3, 3, 2]\<rparr>)
        (final_end \<lparr>shape = [1, 2], flat = [0, 2]\<rparr>)"
    by code_simp
  have d: "\<exists>(s, e) \<in> set (rows \<lparr>shape = [2, 2], flat = [0, 3, 3, 2]\<rparr>). e - s \<le> 0"
    by code_simp
  from structure_validate_contract [of "\<lparr>shape = [2, 2], flat = [0, 3, 3, 2]\<rparr>" "[''a'', ''b'']"
      "\<lparr>shape = [1, 2], flat = [0, 2]\<rparr>" "[''c'']" "\<lambda>ri rl ei el. Inr (length rl + length el)"] a b c
  have "structure_validate (\<lambda>ri rl ei el. Inr (length rl + length el))
        \<lparr>shape = [2, 2], flat = [0, 3, 3, 2]\<rparr> [''a'', ''b'']
        \<lparr>shape = [1, 2], flat = [0, 2]\<rparr> [''c''] = Inr (length [''a'', ''b''] + length [''c''])"
    by blast
  with a b c d show ?thesis by simp
qed

section \<open>Pairwise frame agreement\<close>

lemma triu_nth:
  assumes "i < length m" "j < length (m ! i)"
  shows "triu m ! i ! j = (i \<le> j \<and> m ! i ! j)"
  using assms by (simp add: triu_def nth_enumerate_eq)

lemma length_triu [simp]: "length (triu m) = length m"
  by (simp add: triu_def)

lemma length_triu_row [simp]: "i < length m \<Longrightarrow> length (triu m ! i) = length (m ! i)"
  by (simp add: triu_def nth_enumerate_eq)

lemma length_equal_outer [simp]: "length (equal_outer a b) = length a"
  by (simp add: equal_outer_def)

lemma equal_outer_nth [simp]: "i < length a \<Longrightarrow> equal_outer a b ! i = map (\<lambda>y. a ! i = y) b"
  by (simp add: equal_outer_def)

lemma agree_nth:
  assumes "i < length y" "j < length y"
  shows "triu (equal_outer y y) ! i ! j = (i \<le> j \<and> y ! i = y ! j)"
  using assms by (simp add: triu_nth)

lemma count_true_card:
  "count_true m = card {(i, j). i < length m \<and> j < length (m ! i) \<and> m ! i ! j}"
proof -
  have "count_true m = (\<Sum>i<length m. card {j. j < length (m ! i) \<and> m ! i ! j})"
    by (simp add: count_true_def sum_list_sum_nth length_filter_conv_card atLeast0LessThan)
  also have "\<dots> = card (SIGMA i:{..<length m}. {j. j < length (m ! i) \<and> m ! i ! j})"
    by (subst card_SigmaI) auto
  also have "(SIGMA i:{..<length m}. {j. j < length (m ! i) \<and> m ! i ! j})
             = {(i, j). i < length m \<and> j < length (m ! i) \<and> m ! i ! j}"
    by auto
  finally show ?thesis .
qed

lemma count_true_agree:
  "count_true (triu (equal_outer y y)) = card {(i, j). i \<le> j \<and> j < length y \<and> y ! i = y ! j}"
proof -
  have "{(i, j). i < length (triu (equal_outer y y)) \<and> j < length (triu (equal_outer y y) ! i)
            \<and> triu (equal_outer y y) ! i ! j}
        = {(i, j). i \<le> j \<and> j < length y \<and> y ! i = y ! j}"
    by (auto simp: triu_nth)
  then show ?thesis by (simp add: count_true_card)
qed

lemma diagonal_le_count:
  "length y \<le> count_true (triu (equal_outer y y))"
proof -
  have fin: "finite {(i, j). i \<le> j \<and> j < length y \<and> y ! i = y ! j}"
    by (rule finite_subset [of _ "{..<length y} \<times> {..<length y}"]) auto
  have "card ((\<lambda>i. (i, i)) ` {..<length y}) \<le> card {(i, j). i \<le> j \<and> j < length y \<and> y ! i = y ! j}"
    by (rule card_mono [OF fin]) auto
  moreover have "card ((\<lambda>i. (i, i)) ` {..<length y}) = length y"
    by (subst card_image) (auto simp: inj_on_def)
  ultimately show ?thesis by (simp add: count_true_agree)
qed

lemma logical_and_same: "logical_and a a = Inr a"
proof -
  have "map2 (map2 (\<and>)) a a = a"
    by (simp add: zip_same_conv_map map_idI comp_def)
  then show ?thesis by (simp add: logical_and_def)
qed

lemma f_measure_one: "f_measure (Num 1) (Num 1) beta = Num 1"
proof -
  have "beta\<^sup>2 + 1 > 0" by (rule add_nonneg_pos) simp_all
  then have "beta\<^sup>2 + 1 \<noteq> 0" by simp
  then show ?thesis by (simp add: add.commute)
qed

lemma pairwise_frames_same:
  assumes "y \<noteq> []"
  shows "pairwise_frames y y beta = Inr (Num 1, Num 1, Num 1)"
proof -
  have "0 < length y" using assms by simp
  with diagonal_le_count [of y] have "count_true (triu (equal_outer y y)) \<noteq> 0" by linarith
  then show ?thesis
    by (simp add: pairwise_frames_def logical_and_same f_measure_one Let_def del: f_measure.simps)
qed

lemma count_true_both:
  assumes "length y_ref = length y_est"
  shows "count_true (map2 (map2 (\<and>)) (triu (equal_outer y_ref y_ref)) (triu (equal_outer y_est y_est)))
         = card {(i, j). i \<le> j \<and> j < length y_ref \<and> y_ref ! i = y_ref ! j \<and> y_est ! i = y_est ! j}"
proof -
  let ?a = "triu (equal_outer y_ref y_ref)" and ?b = "triu (equal_outer y_est y_est)"
  let ?m = "map2 (map2 (\<and>)) ?a ?b"
  have len: "length ?m = length y_ref" using assms by simp
  have row: "length (?m ! i) = length y_ref" if "i < length y_ref" for i
    using that assms by simp
  have ent: "?m ! i ! j = (i \<le> j \<and> y_ref ! i = y_ref ! j \<and> y_est ! i = y_est ! j)"
    if "i < length y_ref" "j < length y_ref" for i j
    using that assms by (auto simp: triu_nth)
  have "{(i, j). i < length ?m \<and> j < length (?m ! i) \<and> ?m ! i ! j}
        = {(i, j). i \<le> j \<and> j < length y_ref \<and> y_ref ! i = y_ref ! j \<and> y_est ! i = y_est ! j}"
    using len row ent by auto
  then show ?thesis by (simp only: count_true_card)
qed

text \<open>
  Claim C1, as the code has it. The two agreement matrices are upper triangular
  \<^emph>\<open>with\<close> their main diagonal (\<^verbatim>\<open>np.triu\<close> with its default \<^verbatim>\<open>k=0\<close>): entry \<open>(i, j)\<close>
  is true exactly when \<open>i \<le> j\<close> and the frames \<open>i\<close> and \<open>j\<close> carry the same
  label, so every diagonal entry is true and every self-pair \<open>(i, i)\<close> is counted in
  the matches and in both denominators.
\<close>

theorem agreement_matrices_keep_diagonal:
  "(\<forall>i < length y. \<forall>j < length y. triu (equal_outer y y) ! i ! j = (i \<le> j \<and> y ! i = y ! j))
   \<and> (\<forall>i < length y. triu (equal_outer y y) ! i ! i)
   \<and> count_true (triu (equal_outer y y)) = card {(i, j). i \<le> j \<and> j < length y \<and> y ! i = y ! j}
   \<and> (length y_ref = length y_est \<longrightarrow> y_ref \<noteq> [] \<longrightarrow>
        pairwise_frames y_ref y_est beta =
          (let matches = real (card {(i, j). i \<le> j \<and> j < length y_ref
                                    \<and> y_ref ! i = y_ref ! j \<and> y_est ! i = y_est ! j});
               precision = Num (matches / real (card {(i, j). i \<le> j \<and> j < length y_est
                                    \<and> y_est ! i = y_est ! j}));
               recall = Num (matches / real (card {(i, j). i \<le> j \<and> j < length y_ref
                                    \<and> y_ref ! i = y_ref ! j}))
           in Inr (precision, recall, f_measure precision recall beta)))"
proof (intro conjI impI)
  show "\<forall>i < length y. \<forall>j < length y. triu (equal_outer y y) ! i ! j = (i \<le> j \<and> y ! i = y ! j)"
    by (simp add: agree_nth)
  show "\<forall>i < length y. triu (equal_outer y y) ! i ! i"
    by (simp add: agree_nth)
  show "count_true (triu (equal_outer y y)) = card {(i, j). i \<le> j \<and> j < length y \<and> y ! i = y ! j}"
    by (rule count_true_agree)
next
  assume len: "length y_ref = length y_est" and ne: "y_ref \<noteq> []"
  then have ne': "y_est \<noteq> []" by auto
  have r: "count_true (triu (equal_outer y_ref y_ref)) \<noteq> 0"
    using diagonal_le_count [of y_ref] ne by (cases y_ref) auto
  have e: "count_true (triu (equal_outer y_est y_est)) \<noteq> 0"
    using diagonal_le_count [of y_est] ne' by (cases y_est) auto
  have la: "logical_and (triu (equal_outer y_ref y_ref)) (triu (equal_outer y_est y_est))
            = Inr (map2 (map2 (\<and>)) (triu (equal_outer y_ref y_ref)) (triu (equal_outer y_est y_est)))"
    using len by (simp add: logical_and_def)
  show "pairwise_frames y_ref y_est beta =
          (let matches = real (card {(i, j). i \<le> j \<and> j < length y_ref
                                    \<and> y_ref ! i = y_ref ! j \<and> y_est ! i = y_est ! j});
               precision = Num (matches / real (card {(i, j). i \<le> j \<and> j < length y_est
                                    \<and> y_est ! i = y_est ! j}));
               recall = Num (matches / real (card {(i, j). i \<le> j \<and> j < length y_ref
                                    \<and> y_ref ! i = y_ref ! j}))
           in Inr (precision, recall, f_measure precision recall beta))"
    unfolding pairwise_frames_def Let_def la
    using r e by (simp add: count_true_both [OF len] count_true_agree del: f_measure.simps)
qed

theorem agreement_matrices_keep_diagonal_witness:
  "(1::nat) < length [0::nat, 0, 1]
   \<and> triu (equal_outer [0::nat, 0, 1] [0, 0, 1]) ! 0 ! 1
   \<and> triu (equal_outer [0::nat, 0, 1] [0, 0, 1]) ! 1 ! 1
   \<and> \<not> triu (equal_outer [0::nat, 0, 1] [0, 0, 1]) ! 1 ! 0
   \<and> length [0::nat, 0, 1] = length [0::nat, 1, 1]
   \<and> pairwise_frames [0, 0, 1] [0, 1, 1] 1 = Inr (Num (3 / 4), Num (3 / 4), Num (3 / 4))"
proof -
  note t = agreement_matrices_keep_diagonal [of "[0, 0, 1]" "[0, 0, 1]" "[0, 1, 1]" 1]
  have l: "(0::nat) < length [0::nat, 0, 1]" "(1::nat) < length [0::nat, 0, 1]" by simp_all
  from t l have "triu (equal_outer [0::nat, 0, 1] [0, 0, 1]) ! 0 ! 1
      = ((0::nat) \<le> 1 \<and> [0::nat, 0, 1] ! 0 = [0::nat, 0, 1] ! 1)"
    by blast
  then have a: "triu (equal_outer [0::nat, 0, 1] [0, 0, 1]) ! 0 ! 1" by simp
  from t l have b: "triu (equal_outer [0::nat, 0, 1] [0, 0, 1]) ! 1 ! 1" by blast
  from t l have "triu (equal_outer [0::nat, 0, 1] [0, 0, 1]) ! 1 ! 0
      = ((1::nat) \<le> 0 \<and> [0::nat, 0, 1] ! 1 = [0::nat, 0, 1] ! 0)"
    by blast
  then have c: "\<not> triu (equal_outer [0::nat, 0, 1] [0, 0, 1]) ! 1 ! 0" by simp
  have d: "pairwise_frames [0, 0, 1] [0, 1, 1] 1 = Inr (Num (3 / 4), Num (3 / 4), Num (3 / 4))"
    by code_simp
  from a b c d show ?thesis by simp
qed

text \<open>
  Claim C1, as stated, fails: with a single frame the only pair is the self-pair
  \<open>(0, 0)\<close>; its entry is true, each matrix sums to 1 rather than 0, and \<open>pairwise\<close>
  returns \<open>(1, 1, 1)\<close> out of that one self-pair.
\<close>

theorem strictly_upper_triangular_counterexample:
  "triu (equal_outer [0::nat] [0]) ! 0 ! 0
   \<and> count_true (triu (equal_outer [0::nat] [0])) = 1
   \<and> frame_labels \<lparr>shape = [1, 2], flat = [0, 1]\<rparr> [''a''] 1 = [0]
   \<and> pairwise \<lparr>shape = [1, 2], flat = [0, 1]\<rparr> [''a''] \<lparr>shape = [1, 2], flat = [0, 1]\<rparr> [''a''] 1 1
       = Inr (Num 1, Num 1, Num 1)"
  by code_simp

text \<open>
  Claim C8. For a valid (intervals, labels) pair that yields at least one frame,
  \<open>pairwise\<close> of the pair against itself returns precision, recall and f-measure 1.
\<close>

theorem pairwise_identical:
  assumes "structure_validate_pair intervals labels = Inr ()"
      and "frame_labels intervals labels frame_size \<noteq> []"
  shows "pairwise intervals labels intervals labels frame_size beta = Inr (Num 1, Num 1, Num 1)"
  using assms
  by (simp add: pairwise_def structure_validate_same pairwise_metric_def pairwise_frames_same)

theorem pairwise_identical_witness:
  "structure_validate_pair \<lparr>shape = [2, 2], flat = [0, 1, 1, 2]\<rparr> [''a'', ''b''] = Inr ()
   \<and> frame_labels \<lparr>shape = [2, 2], flat = [0, 1, 1, 2]\<rparr> [''a'', ''b''] (1 / 2) \<noteq> []
   \<and> pairwise \<lparr>shape = [2, 2], flat = [0, 1, 1, 2]\<rparr> [''a'', ''b''] \<lparr>shape = [2, 2], flat = [0, 1, 1, 2]\<rparr> [''a'', ''b''] (1 / 2) 2 = Inr (Num 1, Num 1, Num 1)"
proof -
  have v: "structure_validate_pair \<lparr>shape = [2, 2], flat = [0, 1, 1, 2]\<rparr> [''a'', ''b''] = Inr ()"
    by code_simp
  have f: "frame_labels \<lparr>shape = [2, 2], flat = [0, 1, 1, 2]\<rparr> [''a'', ''b''] (1 / 2) = [0, 0, 1, 1]"
    by code_simp
  then have n: "frame_labels \<lparr>shape = [2, 2], flat = [0, 1, 1, 2]\<rparr> [''a'', ''b''] (1 / 2) \<noteq> []" by simp
  from pairwise_identical [OF v n, of 2] v n show ?thesis by simp
qed

lemma structure_validate_Inr:
  "structure_validate metric ri rl ei el = Inr v \<Longrightarrow> metric ri rl ei el = Inr v"
  by (auto simp: structure_validate_def split: sum.splits if_splits)

lemma pairwise_frames_no_nan:
  assumes "pairwise_frames y_ref y_est beta = Inr (p, r, f)" "y_ref \<noteq> []" "y_est \<noteq> []"
  shows "p \<noteq> NaN \<and> r \<noteq> NaN"
proof -
  have r: "count_true (triu (equal_outer y_ref y_ref)) \<noteq> 0"
    using diagonal_le_count [of y_ref] assms(2) by (cases y_ref) auto
  have e: "count_true (triu (equal_outer y_est y_est)) \<noteq> 0"
    using diagonal_le_count [of y_est] assms(3) by (cases y_est) auto
  from assms(1) r e show ?thesis
    by (auto simp: pairwise_frames_def Let_def split: sum.splits simp del: f_measure.simps)
qed

text \<open>
  Claim C9. When the sampling of both annotations yields at least one frame, each of
  the two denominators \<^verbatim>\<open>agree_est.sum()\<close> and \<^verbatim>\<open>agree_ref.sum()\<close> is at least the frame
  count, hence positive (every diagonal entry is true), and the precision and recall
  that \<open>pairwise\<close> returns are quotients, not the \<^verbatim>\<open>nan\<close> of a division by zero.
\<close>

theorem pairwise_denominators_positive:
  assumes "frame_labels reference_intervals reference_labels frame_size \<noteq> []"
      and "frame_labels estimated_intervals estimated_labels frame_size \<noteq> []"
  shows "(let y_ref = frame_labels reference_intervals reference_labels frame_size;
              y_est = frame_labels estimated_intervals estimated_labels frame_size;
              agree_ref = triu (equal_outer y_ref y_ref);
              agree_est = triu (equal_outer y_est y_est)
          in length y_est \<le> count_true agree_est \<and> 0 < count_true agree_est
           \<and> length y_ref \<le> count_true agree_ref \<and> 0 < count_true agree_ref
           \<and> (\<forall>i < length y_est. agree_est ! i ! i) \<and> (\<forall>i < length y_ref. agree_ref ! i ! i)
           \<and> (\<forall>p r f. pairwise reference_intervals reference_labels estimated_intervals
                         estimated_labels frame_size beta = Inr (p, r, f)
                \<longrightarrow> p \<noteq> NaN \<and> r \<noteq> NaN))"
proof -
  let ?yr = "frame_labels reference_intervals reference_labels frame_size"
  let ?ye = "frame_labels estimated_intervals estimated_labels frame_size"
  have r: "length ?yr \<le> count_true (triu (equal_outer ?yr ?yr))" by (rule diagonal_le_count)
  have e: "length ?ye \<le> count_true (triu (equal_outer ?ye ?ye))" by (rule diagonal_le_count)
  have r0: "0 < count_true (triu (equal_outer ?yr ?yr))" using r assms(1) by (cases ?yr) auto
  have e0: "0 < count_true (triu (equal_outer ?ye ?ye))" using e assms(2) by (cases ?ye) auto
  have nn: "p \<noteq> NaN \<and> r \<noteq> NaN"
    if "pairwise reference_intervals reference_labels estimated_intervals
          estimated_labels frame_size beta = Inr (p, r, f)" for p r f
    using structure_validate_Inr [OF that [unfolded pairwise_def]] assms
    by (simp add: pairwise_metric_def pairwise_frames_no_nan)
  from r e r0 e0 nn show ?thesis
    unfolding Let_def by (auto simp: agree_nth)
qed

theorem pairwise_denominators_positive_witness:
  "frame_labels \<lparr>shape = [2, 2], flat = [0, 1, 1, 2]\<rparr> [''a'', ''b''] (1 / 2) \<noteq> []
   \<and> length (frame_labels \<lparr>shape = [2, 2], flat = [0, 1, 1, 2]\<rparr> [''a'', ''b''] (1 / 2))
       \<le> count_true (triu (equal_outer (frame_labels \<lparr>shape = [2, 2], flat = [0, 1, 1, 2]\<rparr> [''a'', ''b''] (1 / 2)) (frame_labels \<lparr>shape = [2, 2], flat = [0, 1, 1, 2]\<rparr> [''a'', ''b''] (1 / 2))))
   \<and> 0 < count_true (triu (equal_outer (frame_labels \<lparr>shape = [2, 2], flat = [0, 1, 1, 2]\<rparr> [''a'', ''b''] (1 / 2)) (frame_labels \<lparr>shape = [2, 2], flat = [0, 1, 1, 2]\<rparr> [''a'', ''b''] (1 / 2))))"
proof -
  have f: "frame_labels \<lparr>shape = [2, 2], flat = [0, 1, 1, 2]\<rparr> [''a'', ''b''] (1 / 2) = [0, 0, 1, 1]"
    by code_simp
  then have n: "frame_labels \<lparr>shape = [2, 2], flat = [0, 1, 1, 2]\<rparr> [''a'', ''b''] (1 / 2) \<noteq> []" by simp
  from pairwise_denominators_positive [OF n n, of 1] n show ?thesis
    unfolding Let_def by blast
qed

section \<open>Normalized conditional entropy\<close>

lemma length_unique: "length (unique xs) = card (set xs)"
  by (simp add: unique_def length_remdups_card_conv)

lemma set_unique [simp]: "set (unique xs) = set xs"
  by (simp add: unique_def)

lemma distinct_unique [simp]: "distinct (unique xs)"
  by (simp add: unique_def)

lemma unique_Nil [simp]: "unique [] = []"
  by (simp add: unique_def)

lemma unique_Nil_iff [simp]: "unique xs = [] \<longleftrightarrow> xs = []"
  by (metis set_unique set_empty)

lemma contingency_shape:
  assumes "contingency_matrix y_ref y_est = Inr counts"
  shows "length counts = card (set y_ref)"
    and "(case counts of [] \<Rightarrow> 0 | r # _ \<Rightarrow> length r) = card (set y_est)"
proof -
  from assms have len: "length y_ref = length y_est"
    and c: "counts = map (\<lambda>c. map (\<lambda>k. real (length (filter (\<lambda>(t, p). t = c \<and> p = k)
                                 (zip y_ref y_est)))) (unique y_est)) (unique y_ref)"
    by (auto simp: contingency_matrix_def split: if_splits)
  show "length counts = card (set y_ref)" by (simp add: c length_unique)
  show "(case counts of [] \<Rightarrow> 0 | r # _ \<Rightarrow> length r) = card (set y_est)"
  proof (cases "unique y_ref")
    case Nil
    then have "y_ref = []" by simp
    with len have "y_est = []" by simp
    with Nil show ?thesis by (simp add: c)
  next
    case (Cons a as)
    then show ?thesis by (simp add: c length_unique)
  qed
qed

lemma nce_frames_scores:
  assumes "nce_frames y_ref y_est beta = Inr (s_over, s_under, s_f)"
  shows "(card (set y_ref) \<le> 1 \<longrightarrow> s_under = NaN)"
    and "(card (set y_est) \<le> 1 \<longrightarrow> s_over = NaN)"
    and "s_f = f_measure s_over s_under beta"
proof -
  from assms obtain counts where c: "contingency_matrix y_ref y_est = Inr counts"
    by (auto simp: nce_frames_def split: sum.splits)
  note sh = contingency_shape [OF c]
  have l: "length (map (map (\<lambda>c. c / real (length y_ref))) counts) = card (set y_ref)"
    using sh(1) by simp
  have m: "(case map (map (\<lambda>c. c / real (length y_ref))) counts of [] \<Rightarrow> 0 | r # _ \<Rightarrow> length r)
           = card (set y_est)"
    using sh(2) by (cases counts) auto
  from assms show "(card (set y_ref) \<le> 1 \<longrightarrow> s_under = NaN)"
    unfolding nce_frames_def c Let_def sum.case l m by auto
  from assms show "(card (set y_est) \<le> 1 \<longrightarrow> s_over = NaN)"
    unfolding nce_frames_def c Let_def sum.case l m by auto
  from assms show "s_f = f_measure s_over s_under beta"
    unfolding nce_frames_def c Let_def sum.case l m by auto
qed

lemma f_measure_nan: "s_over = NaN \<or> s_under = NaN \<Longrightarrow> f_measure s_over s_under beta = NaN"
  by (cases s_over; cases s_under) auto

lemma columns_table:
  assumes "cs \<noteq> []"
  shows "columns (map (\<lambda>c. map (f c) ks) cs) = map (\<lambda>k. map (\<lambda>c. f c k) cs) ks"
proof -
  from assms obtain x xs where cs: "cs = x # xs" by (cases cs) auto
  have "columns (map (\<lambda>c. map (f c) ks) cs) =
        map (\<lambda>j. map (\<lambda>c. f c (ks ! j)) cs) [0..<length ks]"
    by (simp add: columns_def cs)
  also have "\<dots> = map (\<lambda>k. map (\<lambda>c. f c k) cs) (map ((!) ks) [0..<length ks])"
    by (simp add: comp_def)
  finally show ?thesis by (simp add: map_nth)
qed

lemma joint_count_sum:
  assumes "length xs = length ys" "finite K" "set ys \<subseteq> K"
  shows "(\<Sum>k \<in> K. joint_count xs ys c k) = count_list xs c"
  using assms
proof (induction xs ys rule: list_induct2)
  case Nil
  then show ?case by (simp add: joint_count_def)
next
  case (Cons a xs b ys)
  have step: "joint_count (a # xs) (b # ys) c k
              = (if a = c \<and> b = k then 1 else 0) + joint_count xs ys c k" for k
    by (simp add: joint_count_def)
  have "(\<Sum>k \<in> K. (if a = c \<and> b = k then 1 else 0 :: nat)) = (if a = c then 1 else 0)"
    using Cons.prems by (auto simp: sum.delta)
  with Cons show ?case by (simp add: step sum.distrib)
qed

lemma dot_Num:
  "dot (map f cs) (map (\<lambda>c. Num (g c)) cs) = Num (\<Sum>c\<leftarrow>cs. f c * g c)"
  by (induction cs) (simp_all add: dot_def)

lemma entr_plog2: "entr p / ln 2 = plog2 p"
  by (simp add: entr_def plog2_def log_def)

lemma count_list_pos: "c \<in> set xs \<Longrightarrow> 0 < count_list xs c"
  by (induction xs) auto

lemma entropy_row:
  assumes len: "length y_ref = length y_est" and c: "c \<in> set y_ref"
  shows "entropy_vec (map (\<lambda>k. real (joint_count y_ref y_est c k) / real (length y_ref))
                       (unique y_est)) 2
         = Num (\<Sum>k \<in> set y_est. plog2 (real (joint_count y_ref y_est c k) / real (count_list y_ref c)))"
proof -
  let ?N = "real (length y_ref)"
  let ?J = "\<lambda>k. real (joint_count y_ref y_est c k)"
  from c have ne: "y_ref \<noteq> []" by auto
  with len have ne': "unique y_est \<noteq> []" by auto
  from ne have N: "0 < ?N" by simp
  have cnt: "0 < real (count_list y_ref c)" using count_list_pos [OF c] by simp
  have "(\<Sum>k \<in> set y_est. joint_count y_ref y_est c k) = count_list y_ref c"
    by (rule joint_count_sum [OF len]) auto
  then have "(\<Sum>k \<in> set y_est. ?J k) = real (count_list y_ref c)"
    by (metis of_nat_sum)
  then have s: "sum_list (map (\<lambda>k. ?J k / ?N) (unique y_est)) = real (count_list y_ref c) / ?N"
    by (simp add: sum_list_distinct_conv_sum_set sum_divide_distrib [symmetric])
  then have s0: "sum_list (map (\<lambda>k. ?J k / ?N) (unique y_est)) \<noteq> 0"
    using N cnt by simp
  have q: "(?J k / ?N) / (real (count_list y_ref c) / ?N) = ?J k / real (count_list y_ref c)" for k
    using N by simp
  have "entropy_vec (map (\<lambda>k. ?J k / ?N) (unique y_est)) 2
        = Num (sum_list (map (\<lambda>p. entr (p / (real (count_list y_ref c) / ?N)))
                 (map (\<lambda>k. ?J k / ?N) (unique y_est))) / ln 2)"
    using ne' s0 by (simp add: entropy_vec_def Let_def s)
  also have "map (\<lambda>p. entr (p / (real (count_list y_ref c) / ?N)))
                 (map (\<lambda>k. ?J k / ?N) (unique y_est))
        = map (\<lambda>k. entr (?J k / real (count_list y_ref c))) (unique y_est)"
    by (simp only: map_map comp_def q)
  also have "sum_list (map (\<lambda>k. entr (?J k / real (count_list y_ref c))) (unique y_est)) / ln 2
        = (\<Sum>k \<in> set y_est. plog2 (?J k / real (count_list y_ref c)))"
    by (simp add: sum_list_distinct_conv_sum_set sum_divide_distrib entr_plog2)
  finally show ?thesis .
qed

lemma pred_given_ref_eq:
  assumes len: "length y_ref = length y_est" and ne: "y_est \<noteq> []"
      and c: "contingency_matrix y_ref y_est = Inr counts"
      and k: "contingency = map (map (\<lambda>c. c / real (length y_ref))) counts"
  shows "dot (map sum_list contingency) (entropy (columns contingency) 2)
         = Num (conditional_entropy y_est y_ref)"
proof -
  let ?N = "real (length y_ref)"
  let ?J = "\<lambda>c k. real (joint_count y_ref y_est c k)"
  from ne len have ner: "y_ref \<noteq> []" by auto
  from c len have counts: "counts = map (\<lambda>c. map (\<lambda>k. ?J c k) (unique y_est)) (unique y_ref)"
    by (simp add: contingency_matrix_def joint_count_def)
  have tab: "contingency = map (\<lambda>c. map (\<lambda>k. ?J c k / ?N) (unique y_est)) (unique y_ref)"
    unfolding k counts by (simp add: comp_def)
  have cols: "columns contingency = map (\<lambda>k. map (\<lambda>c. ?J c k / ?N) (unique y_ref)) (unique y_est)"
    unfolding tab using ner by (simp add: columns_table)
  have cols2: "columns (columns contingency) = contingency"
    unfolding cols using ne by (simp add: columns_table tab)
  have ent: "entropy (columns contingency) 2
        = map (\<lambda>c. Num (\<Sum>k \<in> set y_est. plog2 (?J c k / real (count_list y_ref c)))) (unique y_ref)"
    unfolding entropy_def cols2 unfolding tab
    by (simp add: comp_def entropy_row [OF len] cong: map_cong)
  have rs: "sum_list (map (\<lambda>k. ?J c k / ?N) (unique y_est)) = real (count_list y_ref c) / ?N" for c
  proof -
    have "(\<Sum>k \<in> set y_est. joint_count y_ref y_est c k) = count_list y_ref c"
      by (rule joint_count_sum [OF len]) auto
    then have "(\<Sum>k \<in> set y_est. ?J c k) = real (count_list y_ref c)"
      by (metis of_nat_sum)
    then show ?thesis
      by (simp add: sum_list_distinct_conv_sum_set sum_divide_distrib [symmetric])
  qed
  have pref: "map sum_list contingency = map (\<lambda>c. real (count_list y_ref c) / ?N) (unique y_ref)"
    unfolding tab by (simp add: comp_def rs)
  show ?thesis
    unfolding pref ent dot_Num
    by (simp add: conditional_entropy_def sum_list_distinct_conv_sum_set)
qed

lemma joint_count_swap: "joint_count ys xs k c = joint_count xs ys c k"
proof -
  have "zip ys xs = map (\<lambda>(x, y). (y, x)) (zip xs ys)" by (rule zip_commute)
  then show ?thesis
    by (simp add: joint_count_def filter_map comp_def case_prod_unfold conj_commute)
qed

lemma contingency_table:
  assumes "length y_ref = length y_est"
  shows "contingency_matrix y_ref y_est
         = Inr (map (\<lambda>c. map (\<lambda>k. real (joint_count y_ref y_est c k)) (unique y_est)) (unique y_ref))"
  using assms by (simp add: contingency_matrix_def joint_count_def)

lemma true_given_est_eq:
  assumes len: "length y_ref = length y_est" and ne: "y_est \<noteq> []"
      and c: "contingency_matrix y_ref y_est = Inr counts"
      and k: "contingency = map (map (\<lambda>c. c / real (length y_ref))) counts"
  shows "dot (map sum_list (columns contingency)) (entropy contingency 2)
         = Num (conditional_entropy y_ref y_est)"
proof -
  let ?N = "real (length y_ref)"
  let ?J = "\<lambda>c k. real (joint_count y_ref y_est c k)"
  from ne len have ner: "y_ref \<noteq> []" by auto
  from c have counts: "counts = map (\<lambda>c. map (\<lambda>k. ?J c k) (unique y_est)) (unique y_ref)"
    by (simp add: contingency_table [OF len])
  have tab: "contingency = map (\<lambda>c. map (\<lambda>k. ?J c k / ?N) (unique y_est)) (unique y_ref)"
    unfolding k counts by (simp add: comp_def)
  have cols: "columns contingency = map (\<lambda>k. map (\<lambda>c. ?J c k / ?N) (unique y_ref)) (unique y_est)"
    unfolding tab using ner by (simp add: columns_table)
  have cols2: "columns (columns contingency) = contingency"
    unfolding cols using ne by (simp add: columns_table tab)
  have c': "contingency_matrix y_est y_ref
            = Inr (map (\<lambda>k. map (\<lambda>c. ?J c k) (unique y_ref)) (unique y_est))"
    using len by (simp add: contingency_table joint_count_swap)
  have k': "columns contingency = map (map (\<lambda>c. c / real (length y_est)))
              (map (\<lambda>k. map (\<lambda>c. ?J c k) (unique y_ref)) (unique y_est))"
    unfolding cols using len by (simp add: comp_def)
  from pred_given_ref_eq [OF len [symmetric] ner c' k']
  show ?thesis by (simp add: cols2)
qed

lemma log2_card_nonzero: "1 < n \<Longrightarrow> log 2 (real n) \<noteq> 0"
proof -
  assume "1 < n"
  then have "1 < real n" by simp
  then have "0 < log 2 (real n)" by simp
  then show ?thesis by simp
qed

lemma nce_frames_closed_form:
  assumes len: "length y_ref = length y_est"
  shows "nce_frames y_ref y_est beta =
     (let score_under = (if 1 < card (set y_ref)
                         then Num (1 - conditional_entropy y_ref y_est / log 2 (real (card (set y_ref))))
                         else NaN);
          score_over = (if 1 < card (set y_est)
                        then Num (1 - conditional_entropy y_est y_ref / log 2 (real (card (set y_est))))
                        else NaN)
      in Inr (score_over, score_under, f_measure score_over score_under beta))"
proof (cases "y_est = []")
  case True
  with len have "y_ref = []" by simp
  with True show ?thesis
    by (simp add: nce_frames_def contingency_matrix_def)
next
  case False
  define counts where "counts = map (\<lambda>c. map (\<lambda>k. real (joint_count y_ref y_est c k)) (unique y_est)) (unique y_ref)"
  define contingency where "contingency = map (map (\<lambda>c. c / real (length y_ref))) counts"
  have c: "contingency_matrix y_ref y_est = Inr counts"
    unfolding counts_def by (rule contingency_table [OF len])
  note sh = contingency_shape [OF c]
  have l: "length contingency = card (set y_ref)"
    using sh(1) by (simp add: contingency_def)
  have m: "(case contingency of [] \<Rightarrow> 0 | r # _ \<Rightarrow> length r) = card (set y_est)"
    using sh(2) by (cases counts) (auto simp: contingency_def)
  note p = pred_given_ref_eq [OF len False c contingency_def]
  note t = true_given_est_eq [OF len False c contingency_def]
  have "nce_frames y_ref y_est beta =
     (let score_under = (if 1 < card (set y_ref)
                         then fsub (Num 1) (fdiv (Num (conditional_entropy y_ref y_est))
                                (Num (log 2 (real (card (set y_ref))))))
                         else NaN);
          score_over = (if 1 < card (set y_est)
                        then fsub (Num 1) (fdiv (Num (conditional_entropy y_est y_ref))
                                (Num (log 2 (real (card (set y_est))))))
                        else NaN)
      in Inr (score_over, score_under, f_measure score_over score_under beta))"
    unfolding nce_frames_def c sum.case contingency_def [symmetric]
    by (simp only: Let_def l m p t)
  then show ?thesis
    by (simp add: Let_def log2_card_nonzero del: f_measure.simps)
qed

lemma plog2_simps [simp]: "plog2 0 = 0" "plog2 1 = 0" "plog2 (1 / 2) = 1 / 2"
  by (simp_all add: plog2_def log_divide)

lemma ce1: "conditional_entropy [0, 1, 2, 3] [0, 0, 1, 1] = 1"
  by (simp add: conditional_entropy_def joint_count_def)

lemma ce2: "conditional_entropy [0, 0, 1, 1] [0, 1, 2, 3] = 0"
  by (simp add: conditional_entropy_def joint_count_def)

lemma ce3: "conditional_entropy [0, 0, 1, 1] [0, 0, 0, 0] = 1"
  by (simp add: conditional_entropy_def joint_count_def)

lemma log2_4: "log 2 4 = 2"
proof -
  have "log 2 (2 ^ 2) = real 2" by (rule log_pow_cancel) simp_all
  then show ?thesis by simp
qed

lemma card4: "card (set [0::nat, 1, 2, 3]) = 4" "card (set [0::nat, 0, 1, 1]) = 2"
  by simp_all

lemma ex1: "nce_frames [0, 0, 1, 1] [0, 1, 2, 3] beta
            = Inr (Num (1 / 2), Num 1, f_measure (Num (1 / 2)) (Num 1) beta)"
proof -
  have "length [0::nat, 0, 1, 1] = length [0::nat, 1, 2, 3]" by simp
  from nce_frames_closed_form [OF this, of beta] show ?thesis
    unfolding ce1 ce2 card4 Let_def by (simp add: log2_4 del: f_measure.simps)
qed

lemma ex2: "nce_frames [0, 1, 2, 3] [0, 0, 1, 1] beta
            = Inr (Num 1, Num (1 / 2), f_measure (Num 1) (Num (1 / 2)) beta)"
proof -
  have "length [0::nat, 1, 2, 3] = length [0::nat, 0, 1, 1]" by simp
  from nce_frames_closed_form [OF this, of beta] show ?thesis
    unfolding ce1 ce2 card4 Let_def by (simp add: log2_4 del: f_measure.simps)
qed

lemma f_measure_asym:
  assumes "0 < beta" "beta \<noteq> 1"
  shows "f_measure (Num (1 / 2)) (Num 1) beta \<noteq> f_measure (Num 1) (Num (1 / 2)) beta"
proof -
  have b2: "beta\<^sup>2 \<noteq> 1" using assms by (simp add: power2_eq_1_iff)
  have p: "0 \<le> beta\<^sup>2" by simp
  have d1: "beta\<^sup>2 * (1 / 2) + 1 \<noteq> 0" using p by linarith
  have d2: "beta\<^sup>2 * 1 + 1 / 2 \<noteq> 0" using p by linarith
  have n: "(1 + beta\<^sup>2) \<noteq> 0" using p by linarith
  have "(1 + beta\<^sup>2) * (1 / 2) * 1 / (beta\<^sup>2 * (1 / 2) + 1)
        \<noteq> (1 + beta\<^sup>2) * 1 * (1 / 2) / (beta\<^sup>2 * 1 + 1 / 2)"
  proof
    assume "(1 + beta\<^sup>2) * (1 / 2) * 1 / (beta\<^sup>2 * (1 / 2) + 1)
        = (1 + beta\<^sup>2) * 1 * (1 / 2) / (beta\<^sup>2 * 1 + 1 / 2)"
    then have "1 + beta\<^sup>2 = 0 \<or> beta\<^sup>2 = 1"
      using d1 d2 by (simp add: frac_eq_eq)
    with n b2 show False by blast
  qed
  with d1 d2 show ?thesis by simp
qed

lemma structure_validate_accepted:
  assumes "accepted_pair ri rl" "accepted_pair ei el" "allclose (final_end ri) (final_end ei)"
  shows "structure_validate metric ri rl ei el = metric ri rl ei el"
  using assms by (simp add: structure_validate_ends accepted_pair_iff)

lemma nce_accepted:
  assumes "accepted_pair ri rl" "accepted_pair ei el" "allclose (final_end ri) (final_end ei)"
  shows "nce ri rl ei el frame_size beta
         = nce_frames (frame_labels ri rl frame_size) (frame_labels ei el frame_size) beta"
  using assms by (simp add: nce_def structure_validate_accepted nce_metric_def)

lemma nce_Inr:
  "nce ri rl ei el frame_size beta = Inr v \<Longrightarrow>
   nce_frames (frame_labels ri rl frame_size) (frame_labels ei el frame_size) beta = Inr v"
  by (auto simp: nce_def nce_metric_def dest: structure_validate_Inr)

lemma example_accepted:
  "accepted_pair \<lparr>shape = [2, 2], flat = [0, 1, 1, 2]\<rparr> [''a'', ''b'']" "accepted_pair \<lparr>shape = [4, 2], flat = [0, 1 / 2, 1 / 2, 1, 1, 3 / 2, 3 / 2, 2]\<rparr> [''a'', ''b'', ''c'', ''d'']" "accepted_pair \<lparr>shape = [1, 2], flat = [0, 2]\<rparr> [''a'']"
  "allclose (final_end \<lparr>shape = [2, 2], flat = [0, 1, 1, 2]\<rparr>) (final_end \<lparr>shape = [4, 2], flat = [0, 1 / 2, 1 / 2, 1, 1, 3 / 2, 3 / 2, 2]\<rparr>)" "allclose (final_end \<lparr>shape = [4, 2], flat = [0, 1 / 2, 1 / 2, 1, 1, 3 / 2, 3 / 2, 2]\<rparr>) (final_end \<lparr>shape = [2, 2], flat = [0, 1, 1, 2]\<rparr>)"
  "allclose (final_end \<lparr>shape = [1, 2], flat = [0, 2]\<rparr>) (final_end \<lparr>shape = [2, 2], flat = [0, 1, 1, 2]\<rparr>)"
  by code_simp+

lemma example_frames:
  "frame_labels \<lparr>shape = [2, 2], flat = [0, 1, 1, 2]\<rparr> [''a'', ''b''] (1 / 2) = [0, 0, 1, 1]"
  "frame_labels \<lparr>shape = [4, 2], flat = [0, 1 / 2, 1 / 2, 1, 1, 3 / 2, 3 / 2, 2]\<rparr> [''a'', ''b'', ''c'', ''d''] (1 / 2) = [0, 1, 2, 3]"
  "frame_labels \<lparr>shape = [1, 2], flat = [0, 2]\<rparr> [''a''] (1 / 2) = [0, 0, 0, 0]"
  by code_simp+

text \<open>
  Claim C2. For a validated input whose two annotations yield equally many frames and
  whose estimate has more than one cluster, the over-clustering score that \<open>nce\<close>
  returns is \<open>1 - H(estimate | reference) / log2 n_est\<close>, where the term the code
  computes from \<^verbatim>\<open>contingency.T\<close> is the conditional entropy of the estimated frame
  labels given the reference frame labels.
\<close>

theorem nce_over_clustering_score:
  assumes "accepted_pair ri rl" "accepted_pair ei el" "allclose (final_end ri) (final_end ei)"
      and "length (frame_labels ri rl frame_size) = length (frame_labels ei el frame_size)"
      and "1 < card (set (frame_labels ei el frame_size))"
  shows "\<exists>s_under s_f. nce ri rl ei el frame_size beta =
           Inr (Num (1 - conditional_entropy (frame_labels ei el frame_size)
                           (frame_labels ri rl frame_size)
                         / log 2 (real (card (set (frame_labels ei el frame_size))))),
                s_under, s_f)"
  using assms(5)
  by (simp add: nce_accepted [OF assms(1-3)] nce_frames_closed_form [OF assms(4)] Let_def
      del: f_measure.simps)

theorem nce_over_clustering_score_witness:
  "accepted_pair \<lparr>shape = [2, 2], flat = [0, 1, 1, 2]\<rparr> [''a'', ''b''] \<and> accepted_pair \<lparr>shape = [4, 2], flat = [0, 1 / 2, 1 / 2, 1, 1, 3 / 2, 3 / 2, 2]\<rparr> [''a'', ''b'', ''c'', ''d'']
   \<and> allclose (final_end \<lparr>shape = [2, 2], flat = [0, 1, 1, 2]\<rparr>) (final_end \<lparr>shape = [4, 2], flat = [0, 1 / 2, 1 / 2, 1, 1, 3 / 2, 3 / 2, 2]\<rparr>)
   \<and> length (frame_labels \<lparr>shape = [2, 2], flat = [0, 1, 1, 2]\<rparr> [''a'', ''b''] (1 / 2)) = length (frame_labels \<lparr>shape = [4, 2], flat = [0, 1 / 2, 1 / 2, 1, 1, 3 / 2, 3 / 2, 2]\<rparr> [''a'', ''b'', ''c'', ''d''] (1 / 2))
   \<and> 1 < card (set (frame_labels \<lparr>shape = [4, 2], flat = [0, 1 / 2, 1 / 2, 1, 1, 3 / 2, 3 / 2, 2]\<rparr> [''a'', ''b'', ''c'', ''d''] (1 / 2)))
   \<and> (\<exists>s_under s_f. nce \<lparr>shape = [2, 2], flat = [0, 1, 1, 2]\<rparr> [''a'', ''b''] \<lparr>shape = [4, 2], flat = [0, 1 / 2, 1 / 2, 1, 1, 3 / 2, 3 / 2, 2]\<rparr> [''a'', ''b'', ''c'', ''d''] (1 / 2) 1 = Inr (Num (1 / 2), s_under, s_f))"
proof -
  have l: "length (frame_labels \<lparr>shape = [2, 2], flat = [0, 1, 1, 2]\<rparr> [''a'', ''b''] (1 / 2)) = length (frame_labels \<lparr>shape = [4, 2], flat = [0, 1 / 2, 1 / 2, 1, 1, 3 / 2, 3 / 2, 2]\<rparr> [''a'', ''b'', ''c'', ''d''] (1 / 2))"
    unfolding example_frames by simp
  have c: "1 < card (set (frame_labels \<lparr>shape = [4, 2], flat = [0, 1 / 2, 1 / 2, 1, 1, 3 / 2, 3 / 2, 2]\<rparr> [''a'', ''b'', ''c'', ''d''] (1 / 2)))"
    unfolding example_frames card4 by simp
  from nce_over_clustering_score [OF example_accepted(1,2,4) l c, of 1]
  have "\<exists>s_under s_f. nce \<lparr>shape = [2, 2], flat = [0, 1, 1, 2]\<rparr> [''a'', ''b''] \<lparr>shape = [4, 2], flat = [0, 1 / 2, 1 / 2, 1, 1, 3 / 2, 3 / 2, 2]\<rparr> [''a'', ''b'', ''c'', ''d''] (1 / 2) 1 = Inr (Num (1 - 1 / log 2 4), s_under, s_f)"
    unfolding example_frames ce1 card4 by simp
  then have "\<exists>s_under s_f. nce \<lparr>shape = [2, 2], flat = [0, 1, 1, 2]\<rparr> [''a'', ''b''] \<lparr>shape = [4, 2], flat = [0, 1 / 2, 1 / 2, 1, 1, 3 / 2, 3 / 2, 2]\<rparr> [''a'', ''b'', ''c'', ''d''] (1 / 2) 1 = Inr (Num (1 / 2), s_under, s_f)"
    by (simp add: log2_4)
  with example_accepted(1,2,4) l c show ?thesis by blast
qed

text \<open>
  Claim C3. In what \<open>nce\<close> returns, \<open>S_under\<close> is \<^verbatim>\<open>nan\<close> when the reference has at
  most one cluster (whatever \<open>S_over\<close> is), \<open>S_over\<close> is \<^verbatim>\<open>nan\<close> when the estimate has
  at most one cluster, and \<open>S_F\<close> is \<^verbatim>\<open>nan\<close> as soon as one of the two scores is.
\<close>

theorem nce_nan_cases:
  assumes "nce ri rl ei el frame_size beta = Inr (s_over, s_under, s_f)"
  shows "(card (set (frame_labels ri rl frame_size)) \<le> 1 \<longrightarrow> s_under = NaN)
       \<and> (card (set (frame_labels ei el frame_size)) \<le> 1 \<longrightarrow> s_over = NaN)
       \<and> (s_over = NaN \<or> s_under = NaN \<longrightarrow> s_f = NaN)"
  using nce_frames_scores [OF nce_Inr [OF assms]] f_measure_nan [of s_over s_under beta]
  by simp

theorem nce_nan_cases_witness:
  "card (set (frame_labels \<lparr>shape = [1, 2], flat = [0, 2]\<rparr> [''a''] (1 / 2))) \<le> 1
   \<and> nce \<lparr>shape = [1, 2], flat = [0, 2]\<rparr> [''a''] \<lparr>shape = [2, 2], flat = [0, 1, 1, 2]\<rparr> [''a'', ''b''] (1 / 2) 1 = Inr (Num 0, NaN, NaN)"
proof -
  have l: "length [0::nat, 0, 0, 0] = length [0::nat, 0, 1, 1]" by simp
  have k: "card (set [0::nat, 0, 0, 0]) = 1" by simp
  have "nce \<lparr>shape = [1, 2], flat = [0, 2]\<rparr> [''a''] \<lparr>shape = [2, 2], flat = [0, 1, 1, 2]\<rparr> [''a'', ''b''] (1 / 2) 1 = nce_frames [0, 0, 0, 0] [0, 0, 1, 1] 1"
    unfolding nce_accepted [OF example_accepted(3,1,6)] example_frames by (rule refl)
  also have "\<dots> = Inr (Num 0, NaN, f_measure (Num 0) NaN 1)"
    unfolding nce_frames_closed_form [OF l] ce3 card4 k Let_def by simp
  finally have e: "nce \<lparr>shape = [1, 2], flat = [0, 2]\<rparr> [''a''] \<lparr>shape = [2, 2], flat = [0, 1, 1, 2]\<rparr> [''a'', ''b''] (1 / 2) 1 = Inr (Num 0, NaN, f_measure (Num 0) NaN 1)" .
  have c: "card (set (frame_labels \<lparr>shape = [1, 2], flat = [0, 2]\<rparr> [''a''] (1 / 2))) \<le> 1"
    unfolding example_frames k by simp
  from nce_nan_cases [OF e] have "f_measure (Num 0) NaN 1 = NaN" by blast
  with e c show ?thesis by simp
qed

text \<open>
  Claim C10. \<open>nce\<close> passes \<open>S_over\<close> in the precision position and \<open>S_under\<close> in
  the recall position of the f-measure, so \<open>S_F\<close> is
  \<open>(1 + beta\<^sup>2) * S_over * S_under / (beta\<^sup>2 * S_over + S_under)\<close>; for a weight
  \<open>beta > 0\<close> other than 1 this is not symmetric: exchanging the roles of the two
  annotations below exchanges \<open>S_over = 1/2\<close> and \<open>S_under = 1\<close> and changes \<open>S_F\<close>.
\<close>

theorem nce_f_measure_argument_order:
  "(nce ri rl ei el frame_size beta = Inr (s_over, s_under, s_f) \<longrightarrow>
      s_f = f_measure s_over s_under beta
      \<and> (\<forall>a b. s_over = Num a \<and> s_under = Num b \<and> beta\<^sup>2 * a + b \<noteq> 0
            \<longrightarrow> s_f = Num ((1 + beta\<^sup>2) * a * b / (beta\<^sup>2 * a + b))))
   \<and> (0 < beta \<and> beta \<noteq> 1 \<longrightarrow>
        (\<exists>f g. nce \<lparr>shape = [2, 2], flat = [0, 1, 1, 2]\<rparr> [''a'', ''b''] \<lparr>shape = [4, 2], flat = [0, 1 / 2, 1 / 2, 1, 1, 3 / 2, 3 / 2, 2]\<rparr> [''a'', ''b'', ''c'', ''d''] (1 / 2) beta = Inr (Num (1 / 2), Num 1, f)
             \<and> nce \<lparr>shape = [4, 2], flat = [0, 1 / 2, 1 / 2, 1, 1, 3 / 2, 3 / 2, 2]\<rparr> [''a'', ''b'', ''c'', ''d''] \<lparr>shape = [2, 2], flat = [0, 1, 1, 2]\<rparr> [''a'', ''b''] (1 / 2) beta = Inr (Num 1, Num (1 / 2), g)
             \<and> f \<noteq> g))"
proof (intro conjI impI)
  assume a: "nce ri rl ei el frame_size beta = Inr (s_over, s_under, s_f)"
  from nce_frames_scores(3) [OF nce_Inr [OF a]]
  show f: "s_f = f_measure s_over s_under beta" .
  show "\<forall>a b. s_over = Num a \<and> s_under = Num b \<and> beta\<^sup>2 * a + b \<noteq> 0
            \<longrightarrow> s_f = Num ((1 + beta\<^sup>2) * a * b / (beta\<^sup>2 * a + b))"
    by (simp add: f)
next
  assume b: "0 < beta \<and> beta \<noteq> 1"
  have "nce \<lparr>shape = [2, 2], flat = [0, 1, 1, 2]\<rparr> [''a'', ''b''] \<lparr>shape = [4, 2], flat = [0, 1 / 2, 1 / 2, 1, 1, 3 / 2, 3 / 2, 2]\<rparr> [''a'', ''b'', ''c'', ''d''] (1 / 2) beta = nce_frames [0, 0, 1, 1] [0, 1, 2, 3] beta"
    unfolding nce_accepted [OF example_accepted(1,2,4)] example_frames by (rule refl)
  then have x: "nce \<lparr>shape = [2, 2], flat = [0, 1, 1, 2]\<rparr> [''a'', ''b''] \<lparr>shape = [4, 2], flat = [0, 1 / 2, 1 / 2, 1, 1, 3 / 2, 3 / 2, 2]\<rparr> [''a'', ''b'', ''c'', ''d''] (1 / 2) beta
      = Inr (Num (1 / 2), Num 1, f_measure (Num (1 / 2)) (Num 1) beta)"
    by (simp only: ex1)
  have "nce \<lparr>shape = [4, 2], flat = [0, 1 / 2, 1 / 2, 1, 1, 3 / 2, 3 / 2, 2]\<rparr> [''a'', ''b'', ''c'', ''d''] \<lparr>shape = [2, 2], flat = [0, 1, 1, 2]\<rparr> [''a'', ''b''] (1 / 2) beta = nce_frames [0, 1, 2, 3] [0, 0, 1, 1] beta"
    unfolding nce_accepted [OF example_accepted(2,1,5)] example_frames by (rule refl)
  then have y: "nce \<lparr>shape = [4, 2], flat = [0, 1 / 2, 1 / 2, 1, 1, 3 / 2, 3 / 2, 2]\<rparr> [''a'', ''b'', ''c'', ''d''] \<lparr>shape = [2, 2], flat = [0, 1, 1, 2]\<rparr> [''a'', ''b''] (1 / 2) beta
      = Inr (Num 1, Num (1 / 2), f_measure (Num 1) (Num (1 / 2)) beta)"
    by (simp only: ex2)
  from b have "f_measure (Num (1 / 2)) (Num 1) beta \<noteq> f_measure (Num 1) (Num (1 / 2)) beta"
    using f_measure_asym [of beta] by blast
  with x y show "\<exists>f g. nce \<lparr>shape = [2, 2], flat = [0, 1, 1, 2]\<rparr> [''a'', ''b''] \<lparr>shape = [4, 2], flat = [0, 1 / 2, 1 / 2, 1, 1, 3 / 2, 3 / 2, 2]\<rparr> [''a'', ''b'', ''c'', ''d''] (1 / 2) beta = Inr (Num (1 / 2), Num 1, f)
             \<and> nce \<lparr>shape = [4, 2], flat = [0, 1 / 2, 1 / 2, 1, 1, 3 / 2, 3 / 2, 2]\<rparr> [''a'', ''b'', ''c'', ''d''] \<lparr>shape = [2, 2], flat = [0, 1, 1, 2]\<rparr> [''a'', ''b''] (1 / 2) beta = Inr (Num 1, Num (1 / 2), g)
             \<and> f \<noteq> g"
    by blast
qed

theorem nce_f_measure_argument_order_witness:
  "(0::real) < 2 \<and> (2::real) \<noteq> 1
   \<and> nce \<lparr>shape = [2, 2], flat = [0, 1, 1, 2]\<rparr> [''a'', ''b''] \<lparr>shape = [4, 2], flat = [0, 1 / 2, 1 / 2, 1, 1, 3 / 2, 3 / 2, 2]\<rparr> [''a'', ''b'', ''c'', ''d''] (1 / 2) 2 = Inr (Num (1 / 2), Num 1, Num (5 / 6))
   \<and> nce \<lparr>shape = [4, 2], flat = [0, 1 / 2, 1 / 2, 1, 1, 3 / 2, 3 / 2, 2]\<rparr> [''a'', ''b'', ''c'', ''d''] \<lparr>shape = [2, 2], flat = [0, 1, 1, 2]\<rparr> [''a'', ''b''] (1 / 2) 2 = Inr (Num 1, Num (1 / 2), Num (5 / 9))"
proof -
  have b: "(0::real) < 2 \<and> (2::real) \<noteq> 1" by simp
  from nce_f_measure_argument_order [of "\<lparr>shape = [2, 2], flat = [0, 1, 1, 2]\<rparr>" "[''a'', ''b'']" "\<lparr>shape = [4, 2], flat = [0, 1 / 2, 1 / 2, 1, 1, 3 / 2, 3 / 2, 2]\<rparr>" "[''a'', ''b'', ''c'', ''d'']" "1 / 2" 2 "Num (1 / 2)" "Num 1"] b
  obtain f g where x: "nce \<lparr>shape = [2, 2], flat = [0, 1, 1, 2]\<rparr> [''a'', ''b''] \<lparr>shape = [4, 2], flat = [0, 1 / 2, 1 / 2, 1, 1, 3 / 2, 3 / 2, 2]\<rparr> [''a'', ''b'', ''c'', ''d''] (1 / 2) 2 = Inr (Num (1 / 2), Num 1, f)"
    and y: "nce \<lparr>shape = [4, 2], flat = [0, 1 / 2, 1 / 2, 1, 1, 3 / 2, 3 / 2, 2]\<rparr> [''a'', ''b'', ''c'', ''d''] \<lparr>shape = [2, 2], flat = [0, 1, 1, 2]\<rparr> [''a'', ''b''] (1 / 2) 2 = Inr (Num 1, Num (1 / 2), g)"
    by blast
  from nce_f_measure_argument_order [of "\<lparr>shape = [2, 2], flat = [0, 1, 1, 2]\<rparr>" "[''a'', ''b'']" "\<lparr>shape = [4, 2], flat = [0, 1 / 2, 1 / 2, 1, 1, 3 / 2, 3 / 2, 2]\<rparr>" "[''a'', ''b'', ''c'', ''d'']" "1 / 2" 2 "Num (1 / 2)" "Num 1" f] x
  have "f = f_measure (Num (1 / 2)) (Num 1) 2" by blast
  then have f: "f = Num (5 / 6)" by simp
  from nce_f_measure_argument_order [of "\<lparr>shape = [4, 2], flat = [0, 1 / 2, 1 / 2, 1, 1, 3 / 2, 3 / 2, 2]\<rparr>" "[''a'', ''b'', ''c'', ''d'']" "\<lparr>shape = [2, 2], flat = [0, 1, 1, 2]\<rparr>" "[''a'', ''b'']" "1 / 2" 2 "Num 1" "Num (1 / 2)" g] y
  have "g = f_measure (Num 1) (Num (1 / 2)) 2" by blast
  then have g: "g = Num (5 / 9)" by simp
  from x y f g b show ?thesis by simp
qed

section \<open>Boundary detection: the matching and the scores\<close>

lemma card_le_one:
  assumes "finite S" "\<And>x y. x \<in> S \<Longrightarrow> y \<in> S \<Longrightarrow> x = y"
  shows "card S \<le> 1"
proof (cases "S = {}")
  case True
  then show ?thesis by simp
next
  case False
  then obtain x where "x \<in> S" by auto
  with assms(2) have "S \<subseteq> {x}" by auto
  then have "card S \<le> card {x}" by (rule card_mono [rotated]) simp
  then show ?thesis by simp
qed

lemma exchange:
  fixes M :: "('a \<times> 'b) set" and ka :: "'a \<Rightarrow> real" and kb :: "'b \<Rightarrow> real"
  assumes fin: "finite M"
    and inj: "\<And>a b a' b'. (a, b) \<in> M \<Longrightarrow> (a', b') \<in> M \<Longrightarrow> (a = a') = (b = b')"
    and win: "\<And>a b. (a, b) \<in> M \<Longrightarrow> \<bar>ka a - kb b\<bar> \<le> w"
    and lowA: "\<And>a b. (a, b) \<in> M \<Longrightarrow> ka a0 \<le> ka a"
    and lowB: "\<And>a b. (a, b) \<in> M \<Longrightarrow> kb b0 \<le> kb b"
  shows "\<exists>M'. finite M'
           \<and> (\<forall>a b. (a, b) \<in> M' \<longrightarrow> a \<noteq> a0 \<and> b \<noteq> b0 \<and> (\<exists>b'. (a, b') \<in> M) \<and> (\<exists>a'. (a', b) \<in> M))
           \<and> (\<forall>a b a' b'. (a, b) \<in> M' \<longrightarrow> (a', b') \<in> M' \<longrightarrow> (a = a') = (b = b'))
           \<and> (\<forall>a b. (a, b) \<in> M' \<longrightarrow> \<bar>ka a - kb b\<bar> \<le> w)
           \<and> card M \<le> Suc (card M')"
proof -
  define M1 where "M1 = {(a, b). (a, b) \<in> M \<and> a \<noteq> a0 \<and> b \<noteq> b0}"
  have M1sub: "M1 \<subseteq> M" by (auto simp: M1_def)
  have fin1: "finite M1" using M1sub fin by (rule finite_subset)
  have M1mem: "\<And>a b. (a, b) \<in> M1 \<longleftrightarrow> (a, b) \<in> M \<and> a \<noteq> a0 \<and> b \<noteq> b0"
    by (simp add: M1_def)
  have good1: "(\<forall>a b. (a, b) \<in> M1 \<longrightarrow> a \<noteq> a0 \<and> b \<noteq> b0 \<and> (\<exists>b'. (a, b') \<in> M) \<and> (\<exists>a'. (a', b) \<in> M))
           \<and> (\<forall>a b a' b'. (a, b) \<in> M1 \<longrightarrow> (a', b') \<in> M1 \<longrightarrow> (a = a') = (b = b'))
           \<and> (\<forall>a b. (a, b) \<in> M1 \<longrightarrow> \<bar>ka a - kb b\<bar> \<le> w)"
    using inj win by (metis M1mem)
  show ?thesis
  proof (cases "\<exists>b1 a1. (a0, b1) \<in> M \<and> (a1, b0) \<in> M \<and> b1 \<noteq> b0")
    case True
    then obtain b1 a1 where m1: "(a0, b1) \<in> M" and m2: "(a1, b0) \<in> M" and nb: "b1 \<noteq> b0"
      by blast
    from inj [OF m1 m2] nb have na: "a1 \<noteq> a0" by auto
    define M' where "M' = insert (a1, b1) M1"
    have notin: "(a1, b1) \<notin> M1"
      using inj [OF m2, of a1 b1] nb by (auto simp: M1mem)
    have sub: "M \<subseteq> insert (a0, b1) (insert (a1, b0) M1)"
    proof
      fix p assume p: "p \<in> M"
      obtain a b where ab: "p = (a, b)" by (cases p)
      show "p \<in> insert (a0, b1) (insert (a1, b0) M1)"
      proof (cases "a = a0")
        case True
        with inj [OF m1, of a b] p ab have "b = b1" by auto
        with True ab show ?thesis by simp
      next
        case False
        show ?thesis
        proof (cases "b = b0")
          case True
          with inj [OF m2, of a b] p ab have "a = a1" by auto
          with True ab show ?thesis by simp
        next
          case nb0: False
          with False p ab have "(a, b) \<in> M1" by (simp add: M1mem)
          with ab show ?thesis by simp
        qed
      qed
    qed
    have "card M \<le> card (insert (a0, b1) (insert (a1, b0) M1))"
      by (rule card_mono [OF _ sub]) (simp add: fin1)
    also have "\<dots> \<le> Suc (Suc (card M1))"
      using fin1 by (simp add: card_insert_if)
    also have "\<dots> = Suc (card M')"
      using fin1 notin by (simp add: M'_def)
    finally have c: "card M \<le> Suc (card M')" .
    have w1: "\<bar>ka a1 - kb b1\<bar> \<le> w"
      using win [OF m1] win [OF m2] lowA [OF m2] lowB [OF m1] by linarith
    have a1free: "(a1, b) \<notin> M1" for b
      using inj [OF m2, of a1 b] by (auto simp: M1mem)
    have b1free: "(a, b1) \<notin> M1" for a
      using inj [OF m1, of a b1] by (auto simp: M1mem)
    have "finite M'" by (simp add: M'_def fin1)
    moreover have "\<forall>a b. (a, b) \<in> M' \<longrightarrow>
        a \<noteq> a0 \<and> b \<noteq> b0 \<and> (\<exists>b'. (a, b') \<in> M) \<and> (\<exists>a'. (a', b) \<in> M)"
      using good1 m1 m2 na nb by (auto simp: M'_def)
    moreover have "\<forall>a b a' b'. (a, b) \<in> M' \<longrightarrow> (a', b') \<in> M' \<longrightarrow> (a = a') = (b = b')"
    proof (intro allI impI)
      fix a b a' b'
      assume x: "(a, b) \<in> M'" and y: "(a', b') \<in> M'"
      show "(a = a') = (b = b')"
      proof (cases "(a, b) = (a1, b1)")
        case True
        show ?thesis
        proof (cases "(a', b') = (a1, b1)")
          case True
          with \<open>(a, b) = (a1, b1)\<close> show ?thesis by simp
        next
          case False
          with y have "(a', b') \<in> M1" by (auto simp: M'_def)
          with True a1free b1free show ?thesis by auto
        qed
      next
        case False
        with x have x1: "(a, b) \<in> M1" by (auto simp: M'_def)
        show ?thesis
        proof (cases "(a', b') = (a1, b1)")
          case True
          with x1 a1free b1free show ?thesis by auto
        next
          case False
          with y have "(a', b') \<in> M1" by (auto simp: M'_def)
          with x1 good1 show ?thesis by blast
        qed
      qed
    qed
    moreover have "\<forall>a b. (a, b) \<in> M' \<longrightarrow> \<bar>ka a - kb b\<bar> \<le> w"
      using good1 w1 by (auto simp: M'_def)
    ultimately show ?thesis using c by blast
  next
    case False
    then have none: "\<And>b1 a1. (a0, b1) \<in> M \<Longrightarrow> (a1, b0) \<in> M \<Longrightarrow> b1 = b0" by blast
    have "card (M - M1) \<le> 1"
    proof (rule card_le_one)
      show "finite (M - M1)" using fin by simp
      fix x y assume x: "x \<in> M - M1" and y: "y \<in> M - M1"
      obtain a b where xab: "x = (a, b)" by (cases x)
      obtain a' b' where yab: "y = (a', b')" by (cases y)
      from x xab have xm: "(a, b) \<in> M" and xe: "a = a0 \<or> b = b0" by (auto simp: M1mem)
      from y yab have ym: "(a', b') \<in> M" and ye: "a' = a0 \<or> b' = b0" by (auto simp: M1mem)
      from xe ye have "a = a' \<or> b = b'"
        using none xm ym inj [OF xm ym] by blast
      with inj [OF xm ym] xab yab show "x = y" by auto
    qed
    moreover have "card M = card M1 + card (M - M1)"
      using fin M1sub by (metis card_Diff_subset card_mono fin1 le_add_diff_inverse)
    ultimately have "card M \<le> Suc (card M1)" by simp
    with fin1 good1 show ?thesis by blast
  qed
qed

lemma sweep_upper_bound:
  fixes M :: "((nat \<times> real) \<times> (nat \<times> real)) set"
  assumes "sorted (map snd rs)" "sorted (map snd es)"
    and "\<And>a b. (a, b) \<in> M \<Longrightarrow> a \<in> set rs \<and> b \<in> set es"
    and "\<And>a b. (a, b) \<in> M \<Longrightarrow> \<bar>snd a - snd b\<bar> \<le> w"
    and "\<And>a b a' b'. (a, b) \<in> M \<Longrightarrow> (a', b') \<in> M \<Longrightarrow> (a = a') = (b = b')"
  shows "card M \<le> length (sweep w rs es)"
  using assms
proof (induction w rs es arbitrary: M rule: sweep.induct)
  case (1 w es)
  then have "M = {}" by auto
  then show ?case by simp
next
  case (2 w r rs)
  then have "M = {}" by auto
  then show ?case by simp
next
  case (3 w i r rs j e es)
  let ?a0 = "(i, r)" and ?b0 = "(j, e)"
  note mem = "3.prems"(3) and win = "3.prems"(4) and inj = "3.prems"(5)
  have sr: "sorted (map snd rs)" and se: "sorted (map snd es)"
    using "3.prems"(1,2) by simp_all
  have lowA: "r \<le> snd a" if "(a, b) \<in> M" for a b
    using mem [OF that] "3.prems"(1) by auto
  have lowB: "e \<le> snd b" if "(a, b) \<in> M" for a b
    using mem [OF that] "3.prems"(2) by auto
  have fin: "finite M"
    by (rule finite_subset [of _ "set (?a0 # rs) \<times> set (?b0 # es)"]) (use mem in auto)
  show ?case
  proof (cases "\<bar>r - e\<bar> \<le> w")
    case True
    from exchange [of M snd snd w ?a0 ?b0, OF fin inj win] lowA lowB
    obtain M' where f': "finite M'"
      and sub: "\<And>a b. (a, b) \<in> M' \<Longrightarrow> a \<noteq> ?a0 \<and> b \<noteq> ?b0 \<and> (\<exists>b'. (a, b') \<in> M) \<and> (\<exists>a'. (a', b) \<in> M)"
      and inj': "\<And>a b a' b'. (a, b) \<in> M' \<Longrightarrow> (a', b') \<in> M' \<Longrightarrow> (a = a') = (b = b')"
      and win': "\<And>a b. (a, b) \<in> M' \<Longrightarrow> \<bar>snd a - snd b\<bar> \<le> w"
      and c: "card M \<le> Suc (card M')"
      by (simp only: snd_conv) blast
    have mem': "a \<in> set rs \<and> b \<in> set es" if "(a, b) \<in> M'" for a b
    proof -
      from sub [OF that] obtain a' b' where "a \<noteq> ?a0" "b \<noteq> ?b0" "(a, b') \<in> M" "(a', b) \<in> M"
        by blast
      with mem [of a b'] mem [of a' b] show ?thesis by auto
    qed
    from "3.IH"(1) [OF True sr se mem' win' inj'] have "card M' \<le> length (sweep w rs es)" .
    with c True show ?thesis by simp
  next
    case False
    show ?thesis
    proof (cases "r < e")
      case True
      have free: "a \<noteq> ?a0" if "(a, b) \<in> M" for a b
      proof
        assume "a = ?a0"
        with win [OF that] lowB [OF that] False True show False by auto
      qed
      have mem': "a \<in> set rs \<and> b \<in> set (?b0 # es)" if "(a, b) \<in> M" for a b
        using mem [OF that] free [OF that] by auto
      from "3.IH"(2) [OF False True sr "3.prems"(2) mem' win inj] False True
      show ?thesis by simp
    next
      case nlt: False
      have free: "b \<noteq> ?b0" if "(a, b) \<in> M" for a b
      proof
        assume "b = ?b0"
        with win [OF that] lowA [OF that] False nlt show False by auto
      qed
      have mem': "a \<in> set (?a0 # rs) \<and> b \<in> set es" if "(a, b) \<in> M" for a b
        using mem [OF that] free [OF that] by auto
      from "3.IH"(3) [OF False nlt "3.prems"(1) se mem' win inj] False nlt
      show ?thesis by simp
    qed
  qed
qed

lemma sweep_sound:
  "(i, j) \<in> set (sweep w rs es) \<Longrightarrow>
   \<exists>r e. (i, r) \<in> set rs \<and> (j, e) \<in> set es \<and> \<bar>r - e\<bar> \<le> w"
  by (induction w rs es rule: sweep.induct) (auto split: if_splits)

lemma sweep_fst: "(i, j) \<in> set (sweep w rs es) \<Longrightarrow> i \<in> fst ` set rs"
  using sweep_sound [of i j w rs es] by force

lemma sweep_snd: "(i, j) \<in> set (sweep w rs es) \<Longrightarrow> j \<in> fst ` set es"
  using sweep_sound [of i j w rs es] by force

lemma sweep_distinct_fst:
  "distinct (map fst rs) \<Longrightarrow> distinct (map fst (sweep w rs es))"
proof (induction w rs es rule: sweep.induct)
  case (3 w i r rs j e es)
  have "i \<notin> fst ` set (sweep w rs es)"
    using 3(4) sweep_fst [of _ _ w rs es] by force
  with 3 show ?case by auto
qed simp_all

lemma sweep_distinct_snd:
  "distinct (map fst es) \<Longrightarrow> distinct (map snd (sweep w rs es))"
proof (induction w rs es rule: sweep.induct)
  case (3 w i r rs j e es)
  have "j \<notin> snd ` set (sweep w rs es)"
    using 3(4) sweep_snd [of _ _ w rs es] by force
  with 3 show ?case by auto
qed simp_all

lemma in_enumerate0: "(i, x) \<in> set (enumerate 0 xs) \<longleftrightarrow> i < length xs \<and> x = xs ! i"
  by (auto simp: in_set_enumerate_eq)

lemma match_events_distinct: "distinct (match_events ref est window)"
proof -
  have "distinct (map fst (sweep window (enumerate 0 ref) (enumerate 0 est)))"
    by (rule sweep_distinct_fst) simp
  then show ?thesis by (simp add: match_events_def distinct_map)
qed

lemma match_events_is_matching:
  "is_matching ref est window (set (match_events ref est window))"
proof -
  let ?m = "sweep window (enumerate 0 ref) (enumerate 0 est)"
  have df: "distinct (map fst ?m)" by (rule sweep_distinct_fst) simp
  have ds: "distinct (map snd ?m)" by (rule sweep_distinct_snd) simp
  have snd: "i < length ref \<and> j < length est \<and> \<bar>ref ! i - est ! j\<bar> \<le> window"
    if "(i, j) \<in> set ?m" for i j
    using sweep_sound [OF that] by (auto simp: in_enumerate0)
  have inj: "(i = i') = (j = j')" if "(i, j) \<in> set ?m" "(i', j') \<in> set ?m" for i j i' j'
  proof
    assume "i = i'"
    with that df have "(i, j) = (i', j')" by (force simp: distinct_map inj_on_def)
    then show "j = j'" by simp
  next
    assume "j = j'"
    with that ds have "(i, j) = (i', j')" by (force simp: distinct_map inj_on_def)
    then show "i = i'" by simp
  qed
  show ?thesis
    unfolding is_matching_def match_events_def using snd inj by blast
qed

lemma match_events_maximum:
  assumes "sorted ref" "sorted est" "is_matching ref est window M"
  shows "card M \<le> length (match_events ref est window)"
proof -
  define emb where "emb = (\<lambda>(i, j). ((i, ref ! i), (j, est ! j)))"
  have inj_emb: "inj_on emb M" by (auto simp: inj_on_def emb_def)
  from assms(3) have bnd: "i < length ref \<and> j < length est \<and> \<bar>ref ! i - est ! j\<bar> \<le> window"
    if "(i, j) \<in> M" for i j
    using that unfolding is_matching_def by blast
  from assms(3) have one: "(i = i') = (j = j')" if "(i, j) \<in> M" "(i', j') \<in> M" for i j i' j'
    using that unfolding is_matching_def by blast
  have "card (emb ` M) \<le> length (sweep window (enumerate 0 ref) (enumerate 0 est))"
  proof (rule sweep_upper_bound)
    show "sorted (map snd (enumerate 0 ref))" using assms(1) by simp
    show "sorted (map snd (enumerate 0 est))" using assms(2) by simp
  next
    fix a b assume "(a, b) \<in> emb ` M"
    then obtain i j where ij: "(i, j) \<in> M" and a: "a = (i, ref ! i)" and b: "b = (j, est ! j)"
      by (auto simp: emb_def)
    from bnd [OF ij] a b show "a \<in> set (enumerate 0 ref) \<and> b \<in> set (enumerate 0 est)"
      by (simp add: in_enumerate0)
    from bnd [OF ij] a b show "\<bar>snd a - snd b\<bar> \<le> window" by simp
  next
    fix a b a' b' assume "(a, b) \<in> emb ` M" "(a', b') \<in> emb ` M"
    then obtain i j i' j' where ij: "(i, j) \<in> M" and a: "a = (i, ref ! i)" and b: "b = (j, est ! j)"
      and ij': "(i', j') \<in> M" and a': "a' = (i', ref ! i')" and b': "b' = (j', est ! j')"
      by (auto simp: emb_def)
    from one [OF ij ij'] show "(a = a') = (b = b')"
      unfolding a b a' b' by auto
  qed
  then show ?thesis by (simp add: match_events_def card_image [OF inj_emb])
qed

lemma sorted_intervals_to_boundaries: "sorted (intervals_to_boundaries intervals)"
  by (simp add: intervals_to_boundaries_def split: list.splits prod.splits)

lemma sorted_trim_ends: "sorted xs \<Longrightarrow> sorted (trim_ends xs)"
  by (cases "tl xs = []") (simp_all add: trim_ends_def sorted_tl sorted_butlast)

lemma sorted_boundaries: "sorted (boundaries intervals trim)"
  by (simp add: boundaries_def Let_def sorted_intervals_to_boundaries sorted_trim_ends)

text \<open>
  Claim C6. For two valid interval sequences whose boundary sets are non-empty after
  the optional trim, \<open>detection\<close> returns precision = |matching| / |estimated
  boundaries|, recall = |matching| / |reference boundaries| and f-measure
  \<open>(1 + beta\<^sup>2) * P * R / (beta\<^sup>2 * P + R)\<close> (0 when that denominator is 0), where the
  matching is a matching under the window constraint of maximum size.
\<close>

theorem detection_scores:
  assumes "boundary_validate_intervals reference_intervals = Inr ()"
      and "boundary_validate_intervals estimated_intervals = Inr ()"
      and "boundaries reference_intervals trim \<noteq> []"
      and "boundaries estimated_intervals trim \<noteq> []"
  shows "(let reference_boundaries = boundaries reference_intervals trim;
              estimated_boundaries = boundaries estimated_intervals trim;
              matching = match_events reference_boundaries estimated_boundaries window;
              P = real (length matching) / real (length estimated_boundaries);
              R = real (length matching) / real (length reference_boundaries)
          in detection reference_intervals estimated_intervals window beta trim
               = Inr (Num P, Num R,
                      Num (if beta\<^sup>2 * P + R = 0 then 0
                           else (1 + beta\<^sup>2) * P * R / (beta\<^sup>2 * P + R)))
           \<and> is_matching reference_boundaries estimated_boundaries window (set matching)
           \<and> card (set matching) = length matching
           \<and> (\<forall>M. is_matching reference_boundaries estimated_boundaries window M
                  \<longrightarrow> card M \<le> length matching))"
proof -
  let ?rb = "boundaries reference_intervals trim" and ?eb = "boundaries estimated_intervals trim"
  have d: "detection reference_intervals estimated_intervals window beta trim
      = Inr (detection_metric reference_intervals estimated_intervals window beta trim)"
    using assms(1,2) by (simp add: detection_def boundary_validate_ok)
  have m: "detection_metric reference_intervals estimated_intervals window beta trim
      = (let matching = match_events ?rb ?eb window;
             P = real (length matching) / real (length ?eb);
             R = real (length matching) / real (length ?rb)
         in (Num P, Num R, Num (if beta\<^sup>2 * P + R = 0 then 0
                           else (1 + beta\<^sup>2) * P * R / (beta\<^sup>2 * P + R))))"
    using assms(3,4) by (simp add: detection_metric_def Let_def)
  have c: "card (set (match_events ?rb ?eb window)) = length (match_events ?rb ?eb window)"
    by (rule distinct_card) (rule match_events_distinct)
  have mx: "\<forall>M. is_matching ?rb ?eb window M \<longrightarrow> card M \<le> length (match_events ?rb ?eb window)"
    by (simp add: match_events_maximum sorted_boundaries)
  from d m c mx match_events_is_matching [of ?rb ?eb window] show ?thesis
    by (simp add: Let_def)
qed

lemma detection_example:
  "boundary_validate_intervals \<lparr>shape = [2, 2], flat = [0, 10, 10, 20]\<rparr> = Inr ()"
  "boundary_validate_intervals \<lparr>shape = [3, 2], flat = [0, 103 / 10, 103 / 10, 15, 15, 20]\<rparr> = Inr ()"
  "boundaries \<lparr>shape = [2, 2], flat = [0, 10, 10, 20]\<rparr> False = [0, 10, 20]"
  "boundaries \<lparr>shape = [3, 2], flat = [0, 103 / 10, 103 / 10, 15, 15, 20]\<rparr> False = [0, 103 / 10, 15, 20]"
  "match_events [0, 10, 20] [0, 103 / 10, 15, 20] (1 / 2) = [(0, 0), (1, 1), (2, 3)]"
  by code_simp+

theorem detection_scores_witness:
  "boundary_validate_intervals \<lparr>shape = [2, 2], flat = [0, 10, 10, 20]\<rparr> = Inr ()
   \<and> boundary_validate_intervals \<lparr>shape = [3, 2], flat = [0, 103 / 10, 103 / 10, 15, 15, 20]\<rparr> = Inr ()
   \<and> boundaries \<lparr>shape = [2, 2], flat = [0, 10, 10, 20]\<rparr> False \<noteq> []
   \<and> boundaries \<lparr>shape = [3, 2], flat = [0, 103 / 10, 103 / 10, 15, 15, 20]\<rparr> False \<noteq> []
   \<and> match_events (boundaries \<lparr>shape = [2, 2], flat = [0, 10, 10, 20]\<rparr> False) (boundaries \<lparr>shape = [3, 2], flat = [0, 103 / 10, 103 / 10, 15, 15, 20]\<rparr> False) (1 / 2) = [(0, 0), (1, 1), (2, 3)]
   \<and> detection \<lparr>shape = [2, 2], flat = [0, 10, 10, 20]\<rparr> \<lparr>shape = [3, 2], flat = [0, 103 / 10, 103 / 10, 15, 15, 20]\<rparr> (1 / 2) 1 False = Inr (Num (3 / 4), Num 1, Num (6 / 7))"
proof -
  have n1: "boundaries \<lparr>shape = [2, 2], flat = [0, 10, 10, 20]\<rparr> False \<noteq> []" unfolding detection_example by simp
  have n2: "boundaries \<lparr>shape = [3, 2], flat = [0, 103 / 10, 103 / 10, 15, 15, 20]\<rparr> False \<noteq> []" unfolding detection_example by simp
  from detection_scores [OF detection_example(1,2) n1 n2, of "1 / 2" 1]
  have "detection \<lparr>shape = [2, 2], flat = [0, 10, 10, 20]\<rparr> \<lparr>shape = [3, 2], flat = [0, 103 / 10, 103 / 10, 15, 15, 20]\<rparr> (1 / 2) 1 False = Inr (Num (3 / 4), Num 1, Num (6 / 7))"
    unfolding Let_def detection_example by simp
  with detection_example n1 n2 show ?thesis by simp
qed

end
